theory Spec2Isabelle
  imports Complex_Main
begin

section \<open>CV extraction for applicants: the model of \<open>hr_applicant.py\<close>\<close>

text \<open>
  The theory embeds the class \<open>HrApplicant\<close> of
  \<open>hr_recruitment_gemini/models/hr_applicant.py\<close>. The record store, the provider and
  the JSON decoder are collaborators of that code, not part of it; they appear as the
  fields of an environment record or as small store operations:
  \<^item> a string is a list of characters; a character stands for a code point below 256;
  \<^item> a table of the store is the list of its rows in the order in which a search returns
    them; a search with \<open>limit=1\<close> yields the first row that matches and a created row is
    last;
  \<^item> the operator \<open>=ilike\<close> on a name compares the two names without regard to the case
    of ASCII letters, the way the source uses it (pattern characters are not modelled);
  \<^item> a write or a creation may be refused by the store: the environment says which calls
    are refused and with which message; reads are taken to succeed;
  \<^item> a cursor is the pair of the committed store and the store the transaction works on;
  \<^item> logging is left out, except where evaluating the arguments of a log call can raise.
\<close>

subsection \<open>Strings\<close>

definition ascii_upper :: string where
  "ascii_upper = ''ABCDEFGHIJKLMNOPQRSTUVWXYZ''"

definition ascii_lower :: string where
  "ascii_lower = ''abcdefghijklmnopqrstuvwxyz''"

definition lower_chr :: "char \<Rightarrow> char" where
  "lower_chr c = (case map_of (zip ascii_upper ascii_lower) c of Some d \<Rightarrow> d | None \<Rightarrow> c)"

text \<open>\<open>str.lower()\<close>, on ASCII letters.\<close>

definition lower :: "string \<Rightarrow> string" where
  "lower s = map lower_chr s"

text \<open>The characters that \<open>str.isspace\<close> and the pattern \<open>\s\<close> accept, below 256.\<close>

definition is_space :: "char \<Rightarrow> bool" where
  "is_space c = (c \<in> set [CHR 0x09, CHR 0x0A, CHR 0x0B, CHR 0x0C, CHR 0x0D,
                          CHR 0x1C, CHR 0x1D, CHR 0x1E, CHR 0x1F, CHR 0x20,
                          CHR 0x85, CHR 0xA0])"

definition is_digit :: "char \<Rightarrow> bool" where
  "is_digit c = (c \<in> set ''0123456789'')"

text \<open>\<open>str.strip()\<close>.\<close>

definition strip :: "string \<Rightarrow> string" where
  "strip s = rev (dropWhile is_space (rev (dropWhile is_space s)))"

fun starts_with :: "string \<Rightarrow> string \<Rightarrow> bool" where
  "starts_with [] s = True"
| "starts_with (p # ps) [] = False"
| "starts_with (p # ps) (c # cs) = (p = c \<and> starts_with ps cs)"

text \<open>\<open>str.endswith\<close>.\<close>

definition ends_with :: "string \<Rightarrow> string \<Rightarrow> bool" where
  "ends_with s p = starts_with (rev p) (rev s)"

text \<open>The index of the first occurrence of a pattern in a text.\<close>

fun find_sub :: "string \<Rightarrow> string \<Rightarrow> nat option" where
  "find_sub pat [] = (if pat = [] then Some 0 else None)"
| "find_sub pat (c # cs) =
     (if starts_with pat (c # cs) then Some 0 else map_option Suc (find_sub pat cs))"

text \<open>\<open>int(...)\<close> on a string of decimal digits.\<close>

definition digit_val :: "char \<Rightarrow> nat" where
  "digit_val c = (case map_of (zip ''0123456789'' [0..<10]) c of Some n \<Rightarrow> n | None \<Rightarrow> 0)"

definition int_of_digits :: "string \<Rightarrow> nat" where
  "int_of_digits ds = foldl (\<lambda>n c. 10 * n + digit_val c) 0 ds"

subsection \<open>Decoded JSON values and exceptions\<close>

text \<open>What \<open>json.loads\<close> returns. A dictionary is the list of its items, read with
  \<open>map_of\<close>; a float is the real number it denotes.\<close>

datatype json =
    JNull
  | JBool bool
  | JInt int
  | JFloat real
  | JStr string
  | JList "json list"
  | JDict "(string \<times> json) list"

text \<open>Python's truth value of a decoded value.\<close>

fun truthy :: "json \<Rightarrow> bool" where
  "truthy JNull = False"
| "truthy (JBool b) = b"
| "truthy (JInt n) = (n \<noteq> 0)"
| "truthy (JFloat x) = (x \<noteq> 0)"
| "truthy (JStr s) = (s \<noteq> [])"
| "truthy (JList xs) = (xs \<noteq> [])"
| "truthy (JDict d) = (d \<noteq> [])"

fun type_name :: "json \<Rightarrow> string" where
  "type_name JNull = ''NoneType''"
| "type_name (JBool b) = ''bool''"
| "type_name (JInt n) = ''int''"
| "type_name (JFloat x) = ''float''"
| "type_name (JStr s) = ''str''"
| "type_name (JList xs) = ''list''"
| "type_name (JDict d) = ''dict''"

text \<open>\<open>d.get(k)\<close>: the value, or \<open>None\<close> when the key is absent.\<close>

definition dict_get :: "(string \<times> json) list \<Rightarrow> string \<Rightarrow> json" where
  "dict_get d k = (case map_of d k of Some v \<Rightarrow> v | None \<Rightarrow> JNull)"

text \<open>The exceptions that the code raises or meets. \<open>ExternalError\<close> is any exception
  raised by a collaborator (the provider, the store), with its message.\<close>

datatype exn =
    UserError string
  | AttributeError string
  | TypeError string
  | ExternalError string

text \<open>\<open>str(e)\<close>.\<close>

fun exn_str :: "exn \<Rightarrow> string" where
  "exn_str (UserError m) = m"
| "exn_str (AttributeError m) = m"
| "exn_str (TypeError m) = m"
| "exn_str (ExternalError m) = m"

text \<open>Calling a method that the value's type does not have.\<close>

definition no_attribute :: "json \<Rightarrow> string \<Rightarrow> exn" where
  "no_attribute v a =
     AttributeError (CHR 0x27 # type_name v @ CHR 0x27 # '' object has no attribute '' @
                     CHR 0x27 # a @ [CHR 0x27])"

definition missing_record :: exn where
  "missing_record = ExternalError ''Record does not exist or has been deleted.''"

text \<open>\<open>len(v)\<close>.\<close>

fun py_len :: "json \<Rightarrow> exn + nat" where
  "py_len (JStr s) = Inr (length s)"
| "py_len (JList xs) = Inr (length xs)"
| "py_len (JDict d) = Inr (length d)"
| "py_len v = Inl (TypeError (''object of type '' @ CHR 0x27 # type_name v @ CHR 0x27 # '' has no len()''))"

subsection \<open>The record store\<close>

datatype extract_state = NoExtract | Pending | Processing | Done | Error

record company =
  gemini_cv_extract_mode :: string
  gemini_api_key :: "string option"
  gemini_model :: "string option"

record attachment =
  datas :: "string option"
  mimetype :: string

text \<open>An applicant. A text field that is not set (\<open>False\<close> in the source) is \<open>None\<close>. The
  company and the main attachment are only read by this code and are held by value.\<close>

record applicant =
  name :: "string option"
  partner_name :: "string option"
  email_from :: "string option"
  partner_phone :: "string option"
  linkedin_profile :: "string option"
  type_id :: "nat option"
  gemini_extract_state :: extract_state
  gemini_extract_status :: "string option"
  message_main_attachment_id :: "attachment option"
  company_id :: "company option"

record degree =
  degree_id :: nat
  degree_name :: string

record skill_type =
  st_id :: nat
  st_name :: string
  skill_level_ids :: "nat list"

record skill_level =
  sl_id :: nat
  sl_name :: string
  level_progress :: int

record skill =
  sk_id :: nat
  sk_name :: string
  skill_type_id :: nat

record applicant_skill =
  as_id :: nat
  applicant_id :: nat
  skill_id :: nat
  skill_level_id :: nat
  as_skill_type_id :: nat

record db =
  applicants :: "nat \<Rightarrow> applicant option"
  degrees :: "degree list"
  skill_types :: "skill_type list"
  skill_levels :: "skill_level list"
  skills :: "skill list"
  applicant_skills :: "applicant_skill list"

text \<open>The dictionary given to \<open>applicant.write\<close>: a key that is absent is \<open>None\<close>.\<close>

record applicant_vals =
  v_name :: "string option"
  v_partner_name :: "string option"
  v_email_from :: "string option"
  v_partner_phone :: "string option"
  v_linkedin_profile :: "string option"
  v_type_id :: "nat option"
  v_state :: "extract_state option"
  v_status :: "string option"

definition no_vals :: applicant_vals where
  "no_vals = \<lparr>v_name = None, v_partner_name = None, v_email_from = None,
              v_partner_phone = None, v_linkedin_profile = None, v_type_id = None,
              v_state = None, v_status = None\<rparr>"

text \<open>The calls to the store that can be refused.\<close>

datatype orm_call =
    WriteApplicant nat applicant_vals
  | CreateDegree string
  | CreateSkillType string
  | CreateSkillLevel string int
  | CreateSkill string nat
  | CreateApplicantSkill nat nat nat nat
  | WriteSkillTypeLevels nat nat
  | WriteSkillType nat nat
  | Commit
  | OpenCursor
  | ErrorCursorWrite "nat list" applicant_vals

text \<open>The collaborators of the code:
  \<^item> \<open>json_loads\<close> is \<open>json.loads\<close>, \<open>None\<close> when it raises \<open>JSONDecodeError\<close>;
  \<^item> \<open>call_gemini api_key model_name mime_type datas\<close> is the exchange with the provider
    (steps 3 and 4 of the job): the text of the response, or the message of the exception;
  \<^item> \<open>py_repr\<close> is \<open>str(v)\<close> and \<open>coerce_char\<close> is the text the store makes of \<open>v\<close> for a text
    field, for a value \<open>v\<close> that is not a string;
  \<^item> \<open>skills_module_installed\<close> is the state of the module \<open>hr_recruitment_skills\<close>;
  \<^item> \<open>env_company\<close> is \<open>self.env.company\<close>;
  \<^item> \<open>fault\<close> gives the message with which the store refuses a call, if it does.\<close>

record env =
  json_loads :: "string \<Rightarrow> json option"
  call_gemini :: "string \<Rightarrow> string \<Rightarrow> string \<Rightarrow> string \<Rightarrow> string + string"
  py_repr :: "json \<Rightarrow> string"
  coerce_char :: "json \<Rightarrow> string"
  skills_module_installed :: bool
  env_company :: company
  fault :: "orm_call \<Rightarrow> string option"

definition py_str :: "env \<Rightarrow> json \<Rightarrow> string" where
  "py_str env v = (case v of JStr s \<Rightarrow> s | _ \<Rightarrow> py_repr env v)"

definition char_value :: "env \<Rightarrow> json \<Rightarrow> string" where
  "char_value env v = (case v of JStr s \<Rightarrow> s | _ \<Rightarrow> coerce_char env v)"

text \<open>The truth value of a text field.\<close>

definition is_set :: "string option \<Rightarrow> bool" where
  "is_set x = (case x of None \<Rightarrow> False | Some s \<Rightarrow> s \<noteq> [])"

definition ilike_eq :: "string \<Rightarrow> string \<Rightarrow> bool" where
  "ilike_eq a b = (lower a = lower b)"

definition fresh_id :: "nat list \<Rightarrow> nat" where
  "fresh_id ids = Suc (foldr max ids 0)"

definition upd_field :: "'a option \<Rightarrow> 'a option \<Rightarrow> 'a option" where
  "upd_field new old = (case new of None \<Rightarrow> old | Some x \<Rightarrow> Some x)"

definition apply_vals :: "applicant_vals \<Rightarrow> applicant \<Rightarrow> applicant" where
  "apply_vals vals a =
     a\<lparr>name := upd_field (v_name vals) (name a),
       partner_name := upd_field (v_partner_name vals) (partner_name a),
       email_from := upd_field (v_email_from vals) (email_from a),
       partner_phone := upd_field (v_partner_phone vals) (partner_phone a),
       linkedin_profile := upd_field (v_linkedin_profile vals) (linkedin_profile a),
       type_id := upd_field (v_type_id vals) (type_id a),
       gemini_extract_state :=
         (case v_state vals of None \<Rightarrow> gemini_extract_state a | Some s \<Rightarrow> s),
       gemini_extract_status := upd_field (v_status vals) (gemini_extract_status a)\<rparr>"

text \<open>\<open>applicant.write(vals)\<close> on one record.\<close>

definition orm_write_applicant :: "env \<Rightarrow> db \<Rightarrow> nat \<Rightarrow> applicant_vals \<Rightarrow> exn + db" where
  "orm_write_applicant env d aid vals =
     (case fault env (WriteApplicant aid vals) of
        Some m \<Rightarrow> Inl (ExternalError m)
      | None \<Rightarrow>
          (case applicants d aid of
             None \<Rightarrow> Inl missing_record
           | Some a \<Rightarrow> Inr (d\<lparr>applicants := (applicants d)(aid \<mapsto> apply_vals vals a)\<rparr>)))"

definition search_degree :: "db \<Rightarrow> string \<Rightarrow> nat option" where
  "search_degree d nm = map_option degree_id (find (\<lambda>g. ilike_eq (degree_name g) nm) (degrees d))"

definition create_degree :: "env \<Rightarrow> db \<Rightarrow> string \<Rightarrow> exn + db \<times> nat" where
  "create_degree env d nm =
     (case fault env (CreateDegree nm) of
        Some m \<Rightarrow> Inl (ExternalError m)
      | None \<Rightarrow>
          (let i = fresh_id (map degree_id (degrees d))
           in Inr (d\<lparr>degrees := degrees d @ [\<lparr>degree_id = i, degree_name = nm\<rparr>]\<rparr>, i)))"

definition search_skill_type :: "db \<Rightarrow> string \<Rightarrow> nat option" where
  "search_skill_type d nm = map_option st_id (find (\<lambda>t. ilike_eq (st_name t) nm) (skill_types d))"

definition create_skill_type :: "env \<Rightarrow> db \<Rightarrow> string \<Rightarrow> exn + db \<times> nat" where
  "create_skill_type env d nm =
     (case fault env (CreateSkillType nm) of
        Some m \<Rightarrow> Inl (ExternalError m)
      | None \<Rightarrow>
          (let i = fresh_id (map st_id (skill_types d))
           in Inr (d\<lparr>skill_types := skill_types d @
                       [\<lparr>st_id = i, st_name = nm, skill_level_ids = []\<rparr>]\<rparr>, i)))"

definition search_level_exact :: "db \<Rightarrow> string \<Rightarrow> int \<Rightarrow> nat option" where
  "search_level_exact d nm p =
     map_option sl_id (find (\<lambda>l. ilike_eq (sl_name l) nm \<and> level_progress l = p) (skill_levels d))"

definition search_level_name :: "db \<Rightarrow> string \<Rightarrow> nat option" where
  "search_level_name d nm = map_option sl_id (find (\<lambda>l. ilike_eq (sl_name l) nm) (skill_levels d))"

text \<open>The search \<open>[('level_progress', '>', 0)]\<close> with \<open>order='level_progress asc'\<close> and
  \<open>limit=1\<close>.\<close>

definition search_level_lowest :: "db \<Rightarrow> nat option" where
  "search_level_lowest d =
     (case filter (\<lambda>l. 0 < level_progress l) (skill_levels d) of
        [] \<Rightarrow> None
      | x # xs \<Rightarrow>
          Some (sl_id (fold (\<lambda>l m. if level_progress l < level_progress m then l else m) xs x)))"

definition create_skill_level :: "env \<Rightarrow> db \<Rightarrow> string \<Rightarrow> int \<Rightarrow> exn + db \<times> nat" where
  "create_skill_level env d nm p =
     (case fault env (CreateSkillLevel nm p) of
        Some m \<Rightarrow> Inl (ExternalError m)
      | None \<Rightarrow>
          (let i = fresh_id (map sl_id (skill_levels d))
           in Inr (d\<lparr>skill_levels := skill_levels d @
                       [\<lparr>sl_id = i, sl_name = nm, level_progress = p\<rparr>]\<rparr>, i)))"

text \<open>\<open>skill_type.skill_level_ids\<close>, and the write of \<open>[(4, level.id)]\<close> to it.\<close>

definition level_ids_of :: "db \<Rightarrow> nat \<Rightarrow> nat list" where
  "level_ids_of d tid =
     (case find (\<lambda>t. st_id t = tid) (skill_types d) of
        None \<Rightarrow> []
      | Some t \<Rightarrow> skill_level_ids t)"

definition add_level_to_type :: "env \<Rightarrow> db \<Rightarrow> nat \<Rightarrow> nat \<Rightarrow> exn + db" where
  "add_level_to_type env d tid lid =
     (case fault env (WriteSkillTypeLevels tid lid) of
        Some m \<Rightarrow> Inl (ExternalError m)
      | None \<Rightarrow>
          Inr (d\<lparr>skill_types :=
                   map (\<lambda>t. if st_id t = tid
                            then t\<lparr>skill_level_ids := skill_level_ids t @ [lid]\<rparr> else t)
                     (skill_types d)\<rparr>))"

definition search_skill :: "db \<Rightarrow> string \<Rightarrow> skill option" where
  "search_skill d nm = find (\<lambda>s. ilike_eq (sk_name s) nm) (skills d)"

definition create_skill :: "env \<Rightarrow> db \<Rightarrow> string \<Rightarrow> nat \<Rightarrow> exn + db \<times> nat" where
  "create_skill env d nm tid =
     (case fault env (CreateSkill nm tid) of
        Some m \<Rightarrow> Inl (ExternalError m)
      | None \<Rightarrow>
          (let i = fresh_id (map sk_id (skills d))
           in Inr (d\<lparr>skills := skills d @
                       [\<lparr>sk_id = i, sk_name = nm, skill_type_id = tid\<rparr>]\<rparr>, i)))"

definition write_skill_type :: "env \<Rightarrow> db \<Rightarrow> nat \<Rightarrow> nat \<Rightarrow> exn + db" where
  "write_skill_type env d sid tid =
     (case fault env (WriteSkillType sid tid) of
        Some m \<Rightarrow> Inl (ExternalError m)
      | None \<Rightarrow>
          Inr (d\<lparr>skills :=
                   map (\<lambda>s. if sk_id s = sid then s\<lparr>skill_type_id := tid\<rparr> else s) (skills d)\<rparr>))"

definition search_link :: "db \<Rightarrow> nat \<Rightarrow> nat \<Rightarrow> applicant_skill option" where
  "search_link d aid sid =
     find (\<lambda>r. applicant_id r = aid \<and> skill_id r = sid) (applicant_skills d)"

definition create_link :: "env \<Rightarrow> db \<Rightarrow> nat \<Rightarrow> nat \<Rightarrow> nat \<Rightarrow> nat \<Rightarrow> exn + db" where
  "create_link env d aid sid lid tid =
     (case fault env (CreateApplicantSkill aid sid lid tid) of
        Some m \<Rightarrow> Inl (ExternalError m)
      | None \<Rightarrow>
          (let i = fresh_id (map as_id (applicant_skills d))
           in Inr (d\<lparr>applicant_skills := applicant_skills d @
                       [\<lparr>as_id = i, applicant_id = aid, skill_id = sid,
                         skill_level_id = lid, as_skill_type_id = tid\<rparr>]\<rparr>)))"

subsection \<open>Cursors\<close>

record cursor =
  committed :: db
  working :: db

definition commit :: "env \<Rightarrow> cursor \<Rightarrow> exn + cursor" where
  "commit env cur =
     (case fault env Commit of
        Some m \<Rightarrow> Inl (ExternalError m)
      | None \<Rightarrow> Inr (cur\<lparr>committed := working cur\<rparr>))"

definition rollback :: "cursor \<Rightarrow> cursor" where
  "rollback cur = cur\<lparr>working := committed cur\<rparr>"

text \<open>A write of the same values to several applicants through a cursor of its own, with
  its commit: the store that results, or \<open>None\<close> when anything in it raises.\<close>

fun write_all :: "applicant_vals \<Rightarrow> db \<Rightarrow> nat list \<Rightarrow> db option" where
  "write_all vals d [] = Some d"
| "write_all vals d (aid # aids) =
     (case applicants d aid of
        None \<Rightarrow> None
      | Some a \<Rightarrow> write_all vals (d\<lparr>applicants := (applicants d)(aid \<mapsto> apply_vals vals a)\<rparr>) aids)"

definition error_cursor_write :: "env \<Rightarrow> cursor \<Rightarrow> nat list \<Rightarrow> applicant_vals \<Rightarrow> cursor option" where
  "error_cursor_write env cur aids vals =
     (case fault env (ErrorCursorWrite aids vals) of
        Some m \<Rightarrow> None
      | None \<Rightarrow>
          (case write_all vals (committed cur) aids of
             None \<Rightarrow> None
           | Some d \<Rightarrow> Some \<lparr>committed = d, working = d\<rparr>))"

subsection \<open>\<open>_parse_gemini_response\<close>\<close>

definition fence_open :: string where
  "fence_open = ''```json'' @ [CHR 0x0A]"

definition fence_close :: string where
  "fence_close = CHR 0x0A # ''```''"

text \<open>\<open>re.search(r"```json\n(.*?)\n```", response_text, re.DOTALL)\<close>: group 1 of the
  leftmost match, the lazy group ending at the first closing fence after the opening.\<close>

definition search_fence :: "string \<Rightarrow> string option" where
  "search_fence r =
     (case find_sub fence_open r of
        None \<Rightarrow> None
      | Some i \<Rightarrow>
          (let rest = drop (i + length fence_open) r
           in case find_sub fence_close rest of
                None \<Rightarrow> None
              | Some j \<Rightarrow> Some (take j rest)))"

text \<open>\<open>re.search(r"\{.*\}", response_text, re.DOTALL)\<close>: group 0, from the first opening
  brace to the last closing brace after it.\<close>

definition search_brace :: "string \<Rightarrow> string option" where
  "search_brace r =
     (let t = dropWhile (\<lambda>c. c \<noteq> CHR ''{'') r;
          u = rev (dropWhile (\<lambda>c. c \<noteq> CHR ''}'') (rev t))
      in if u = [] then None else Some u)"

definition invalid_response :: "string \<Rightarrow> exn" where
  "invalid_response r =
     UserError (''Gemini returned an invalid response that could not be parsed. Raw text: '' @ r)"

text \<open>\<open>json.loads(json_text.strip())\<close> under the handler of \<open>JSONDecodeError\<close>.\<close>

definition decode :: "env \<Rightarrow> string \<Rightarrow> string \<Rightarrow> exn + json" where
  "decode env r json_text =
     (case json_loads env (strip json_text) of
        None \<Rightarrow> Inl (invalid_response r)
      | Some v \<Rightarrow> Inr v)"

definition parse_gemini_response :: "env \<Rightarrow> string \<Rightarrow> exn + json" where
  "parse_gemini_response env r =
     (case search_fence r of
        Some json_text \<Rightarrow> decode env r json_text
      | None \<Rightarrow>
          (case search_brace r of
             Some json_text \<Rightarrow> decode env r json_text
           | None \<Rightarrow> Inl (invalid_response r)))"

subsection \<open>\<open>_write_extracted_data\<close>\<close>

definition application_suffix :: string where
  "application_suffix = CHR 0x27 # ''s Application''"

text \<open>The entries \<open>partner_name\<close> and \<open>name\<close> of \<open>write_vals\<close>.\<close>

definition name_entries :: "env \<Rightarrow> db \<Rightarrow> nat \<Rightarrow> json \<Rightarrow> exn + applicant_vals" where
  "name_entries env d aid nm =
     (if truthy nm then
        (case applicants d aid of
           None \<Rightarrow> Inl missing_record
         | Some a \<Rightarrow>
             (let applicant_name = (case name a of None \<Rightarrow> [] | Some s \<Rightarrow> s)
              in Inr (no_vals\<lparr>v_partner_name := Some (char_value env nm),
                       v_name := (if \<not> is_set (name a) \<or> ends_with applicant_name application_suffix
                                  then Some (py_str env nm @ application_suffix) else None)\<rparr>)))
      else Inr no_vals)"

text \<open>The entry \<open>type_id\<close>: the degree is searched by name and created when there is none;
  a failure of the creation is passed over.\<close>

definition degree_entry :: "env \<Rightarrow> db \<Rightarrow> json \<Rightarrow> applicant_vals \<Rightarrow> db \<times> applicant_vals" where
  "degree_entry env d dg vals =
     (if truthy dg then
        (let degree_name = char_value env dg
         in case search_degree d degree_name of
              Some i \<Rightarrow> (d, vals\<lparr>v_type_id := Some i\<rparr>)
            | None \<Rightarrow>
                (case create_degree env d degree_name of
                   Inl e \<Rightarrow> (d, vals)
                 | Inr (d', i) \<Rightarrow> (d', vals\<lparr>v_type_id := Some i\<rparr>)))
      else (d, vals))"

text \<open>The entries \<open>email_from\<close>, \<open>partner_phone\<close> and \<open>linkedin_profile\<close>.\<close>

definition contact_entries :: "env \<Rightarrow> (string \<times> json) list \<Rightarrow> applicant_vals \<Rightarrow> applicant_vals" where
  "contact_entries env kv v1 =
     (let v2 = (if truthy (dict_get kv ''email'')
                then v1\<lparr>v_email_from := Some (char_value env (dict_get kv ''email''))\<rparr>
                else v1);
          v3 = (if truthy (dict_get kv ''phone'')
                then v2\<lparr>v_partner_phone := Some (char_value env (dict_get kv ''phone''))\<rparr>
                else v2)
      in if truthy (dict_get kv ''linkedin'')
         then v3\<lparr>v_linkedin_profile := Some (char_value env (dict_get kv ''linkedin''))\<rparr>
         else v3)"

definition write_extracted_data :: "env \<Rightarrow> db \<Rightarrow> nat \<Rightarrow> json \<Rightarrow> exn + db" where
  "write_extracted_data env d aid data =
     (if \<not> truthy data then Inr d
      else case data of
        JDict kv \<Rightarrow>
          (case name_entries env d aid (dict_get kv ''name'') of
             Inl e \<Rightarrow> Inl e
           | Inr v1 \<Rightarrow>
               (case degree_entry env d (dict_get kv ''degree'') (contact_entries env kv v1) of
                  (d', write_vals) \<Rightarrow>
                    if write_vals \<noteq> no_vals then orm_write_applicant env d' aid write_vals
                    else Inr d'))
      | _ \<Rightarrow> Inl (no_attribute data ''get''))"

subsection \<open>\<open>_get_or_create_default_skill_level\<close>\<close>

definition default_level_failed :: "exn \<Rightarrow> exn" where
  "default_level_failed e =
     UserError (''Could not create default 'Beginner (15%)' skill level. '' @
                ''Please create one manually in the Skills module. Error: '' @ exn_str e)"

definition get_or_create_default_skill_level :: "env \<Rightarrow> db \<Rightarrow> exn + db \<times> nat" where
  "get_or_create_default_skill_level env d =
     (case search_level_exact d ''Beginner'' 15 of
        Some l \<Rightarrow> Inr (d, l)
      | None \<Rightarrow>
          (case search_level_name d ''Beginner'' of
             Some l \<Rightarrow> Inr (d, l)
           | None \<Rightarrow>
               (case search_level_lowest d of
                  Some l \<Rightarrow> Inr (d, l)
                | None \<Rightarrow>
                    (case create_skill_level env d ''Beginner'' 15 of
                       Inl e \<Rightarrow> Inl (default_level_failed e)
                     | Inr (d', l) \<Rightarrow> Inr (d', l)))))"

subsection \<open>\<open>_process_skills\<close>\<close>

text \<open>The state of one run: the store, the three caches and the default level, which is
  looked up at most once.\<close>

record skills_run =
  run_db :: db
  type_cache :: "string \<Rightarrow> nat option"
  level_cache :: "string \<Rightarrow> nat option"
  skill_cache :: "string \<Rightarrow> nat option"
  default_level :: "nat option"

definition start_run :: "db \<Rightarrow> skills_run" where
  "start_run d = \<lparr>run_db = d, type_cache = Map.empty, level_cache = Map.empty,
                  skill_cache = Map.empty, default_level = None\<rparr>"

text \<open>\<open>\s*\((\d+)%\)\<close> at the start of a text: the digits of the group.\<close>

definition match_progress :: "string \<Rightarrow> string option" where
  "match_progress t =
     (case dropWhile is_space t of
        [] \<Rightarrow> None
      | c # t2 \<Rightarrow>
          if c = CHR ''('' \<and> takeWhile is_digit t2 \<noteq> [] \<and> starts_with ''%)'' (dropWhile is_digit t2)
          then Some (takeWhile is_digit t2) else None)"

text \<open>\<open>re.match(r"(.+?)\s*\((\d+)%\)", level_name_str)\<close>: the two groups. The lazy first
  group takes one more character, never a newline, until the rest of the pattern matches;
  \<open>acc\<close> is what it has taken so far.\<close>

fun level_match :: "string \<Rightarrow> string \<Rightarrow> (string \<times> string) option" where
  "level_match acc [] = None"
| "level_match acc (c # cs) =
     (if c = CHR 0x0A then None
      else case match_progress cs of
             Some ds \<Rightarrow> Some (acc @ [c], ds)
           | None \<Rightarrow> level_match (acc @ [c]) cs)"

text \<open>\<open>level_name_clean\<close> and \<open>level_progress\<close> of a label, when the pattern matches.\<close>

definition parse_level_label :: "string \<Rightarrow> (string \<times> int) option" where
  "parse_level_label s =
     map_option (\<lambda>(g1, g2). (strip g1, int (int_of_digits g2))) (level_match [] s)"

text \<open>Step 1 of the loop body: the skill type.\<close>

definition find_or_create_type :: "env \<Rightarrow> skills_run \<Rightarrow> json \<Rightarrow> exn + skills_run \<times> nat" where
  "find_or_create_type env st tn =
     (case tn of
        JStr s \<Rightarrow>
          (case type_cache st (lower s) of
             Some t \<Rightarrow> Inr (st, t)
           | None \<Rightarrow>
               (case search_skill_type (run_db st) s of
                  Some t \<Rightarrow> Inr (st\<lparr>type_cache := (type_cache st)(lower s \<mapsto> t)\<rparr>, t)
                | None \<Rightarrow>
                    (case create_skill_type env (run_db st) s of
                       Inl e \<Rightarrow> Inl e
                     | Inr (d', t) \<Rightarrow>
                         Inr (st\<lparr>run_db := d', type_cache := (type_cache st)(lower s \<mapsto> t)\<rparr>, t))))
      | _ \<Rightarrow> Inl (no_attribute tn ''lower''))"

text \<open>Step 2, up to the default: the level that the label names, if any.\<close>

definition lookup_level :: "env \<Rightarrow> skills_run \<Rightarrow> json \<Rightarrow> exn + skills_run \<times> nat option" where
  "lookup_level env st lv =
     (if \<not> truthy lv then Inr (st, None)
      else case lv of
        JStr s \<Rightarrow>
          (case level_cache st (lower s) of
             Some l \<Rightarrow> Inr (st, Some l)
           | None \<Rightarrow>
               (let m = parse_level_label s;
                    by_pair = (case m of
                                 None \<Rightarrow> None
                               | Some (level_name_clean, p) \<Rightarrow>
                                   search_level_exact (run_db st) level_name_clean p);
                    by_name = (case by_pair of
                                 None \<Rightarrow> search_level_name (run_db st) s
                               | Some l \<Rightarrow> Some l)
                in case by_name of
                     Some l \<Rightarrow> Inr (st\<lparr>level_cache := (level_cache st)(lower s \<mapsto> l)\<rparr>, Some l)
                   | None \<Rightarrow>
                       (case m of
                          None \<Rightarrow> Inr (st, None)
                        | Some (level_name_clean, p) \<Rightarrow>
                            (case create_skill_level env (run_db st) level_name_clean p of
                               Inl e \<Rightarrow> Inl e
                             | Inr (d', l) \<Rightarrow>
                                 Inr (st\<lparr>run_db := d',
                                         level_cache := (level_cache st)(lower s \<mapsto> l)\<rparr>, Some l)))))
      | _ \<Rightarrow> Inl (no_attribute lv ''lower''))"

text \<open>The default level, looked up or created at the first use in a run.\<close>

definition use_default_level :: "env \<Rightarrow> skills_run \<Rightarrow> exn + skills_run \<times> nat" where
  "use_default_level env st =
     (case default_level st of
        Some l \<Rightarrow> Inr (st, l)
      | None \<Rightarrow>
          (case get_or_create_default_skill_level env (run_db st) of
             Inl e \<Rightarrow> Inl e
           | Inr (d', l) \<Rightarrow> Inr (st\<lparr>run_db := d', default_level := Some l\<rparr>, l)))"

text \<open>Step 2 with the default level for a label that names none.\<close>

definition resolve_skill_level :: "env \<Rightarrow> skills_run \<Rightarrow> json \<Rightarrow> exn + skills_run \<times> nat" where
  "resolve_skill_level env st lv =
     (case lookup_level env st lv of
        Inl e \<Rightarrow> Inl e
      | Inr (st1, Some l) \<Rightarrow> Inr (st1, l)
      | Inr (st1, None) \<Rightarrow> use_default_level env st1)"

text \<open>Step 3: the level is added to the levels of the type when it is not among them.\<close>

definition associate_level :: "env \<Rightarrow> skills_run \<Rightarrow> nat \<Rightarrow> nat \<Rightarrow> exn + skills_run" where
  "associate_level env st tid lid =
     (if lid \<notin> set (level_ids_of (run_db st) tid) then
        (case add_level_to_type env (run_db st) tid lid of
           Inl e \<Rightarrow> Inl e
         | Inr d' \<Rightarrow> Inr (st\<lparr>run_db := d'\<rparr>))
      else Inr st)"

text \<open>Step 4: the skill.\<close>

definition find_or_create_skill :: "env \<Rightarrow> skills_run \<Rightarrow> json \<Rightarrow> nat \<Rightarrow> exn + skills_run \<times> nat" where
  "find_or_create_skill env st sn tid =
     (case sn of
        JStr s \<Rightarrow>
          (case skill_cache st (lower s) of
             Some k \<Rightarrow> Inr (st, k)
           | None \<Rightarrow>
               (case search_skill (run_db st) s of
                  None \<Rightarrow>
                    (case create_skill env (run_db st) s tid of
                       Inl e \<Rightarrow> Inl e
                     | Inr (d', k) \<Rightarrow>
                         Inr (st\<lparr>run_db := d', skill_cache := (skill_cache st)(lower s \<mapsto> k)\<rparr>, k))
                | Some sk \<Rightarrow>
                    if skill_type_id sk \<noteq> tid then
                      (case write_skill_type env (run_db st) (sk_id sk) tid of
                         Inl e \<Rightarrow> Inl e
                       | Inr d' \<Rightarrow>
                           Inr (st\<lparr>run_db := d',
                                   skill_cache := (skill_cache st)(lower s \<mapsto> sk_id sk)\<rparr>, sk_id sk))
                    else Inr (st\<lparr>skill_cache := (skill_cache st)(lower s \<mapsto> sk_id sk)\<rparr>, sk_id sk)))
      | _ \<Rightarrow> Inl (no_attribute sn ''lower''))"

text \<open>Step 5: the link of the applicant to the skill, created when there is none.\<close>

definition link_skill :: "env \<Rightarrow> nat \<Rightarrow> skills_run \<Rightarrow> nat \<Rightarrow> nat \<Rightarrow> nat \<Rightarrow> exn + skills_run" where
  "link_skill env aid st sid lid tid =
     (case search_link (run_db st) aid sid of
        Some existing_link \<Rightarrow> Inr st
      | None \<Rightarrow>
          (case create_link env (run_db st) aid sid lid tid of
             Inl e \<Rightarrow> Inl e
           | Inr d' \<Rightarrow> Inr (st\<lparr>run_db := d'\<rparr>)))"

text \<open>The body of the loop for one item of the list.\<close>

definition process_skill :: "env \<Rightarrow> nat \<Rightarrow> skills_run \<Rightarrow> json \<Rightarrow> exn + skills_run" where
  "process_skill env aid st skill_obj =
     (case skill_obj of
        JDict kv \<Rightarrow>
          (let skill_name_str = dict_get kv ''skill'';
               type_name_str = (if truthy (dict_get kv ''type'') then dict_get kv ''type''
                                else JStr ''General'');
               level_name_str = dict_get kv ''level''
           in if \<not> truthy skill_name_str then Inr st
              else
                (case find_or_create_type env st type_name_str of
                   Inl e \<Rightarrow> Inl e
                 | Inr (st1, tid) \<Rightarrow>
                     (case resolve_skill_level env st1 level_name_str of
                        Inl e \<Rightarrow> Inl e
                      | Inr (st2, lid) \<Rightarrow>
                          (case associate_level env st2 tid lid of
                             Inl e \<Rightarrow> Inl e
                           | Inr st3 \<Rightarrow>
                               (case find_or_create_skill env st3 skill_name_str tid of
                                  Inl e \<Rightarrow> Inl e
                                | Inr (st4, sid) \<Rightarrow> link_skill env aid st4 sid lid tid)))))
      | _ \<Rightarrow> Inr st)"

fun process_loop :: "env \<Rightarrow> nat \<Rightarrow> skills_run \<Rightarrow> json list \<Rightarrow> exn + skills_run" where
  "process_loop env aid st [] = Inr st"
| "process_loop env aid st (skill_obj # rest) =
     (case process_skill env aid st skill_obj of
        Inl e \<Rightarrow> Inl e
      | Inr st' \<Rightarrow> process_loop env aid st' rest)"

definition process_skills :: "env \<Rightarrow> db \<Rightarrow> nat \<Rightarrow> json \<Rightarrow> exn + db" where
  "process_skills env d aid gemini_skills_list =
     (case gemini_skills_list of
        JList items \<Rightarrow>
          (if items = [] then Inr d
           else case process_loop env aid (start_run d) items of
                  Inl e \<Rightarrow> Inl e
                | Inr st \<Rightarrow> Inr (run_db st))
      | _ \<Rightarrow> Inr d)"

subsection \<open>\<open>_run_gemini_extraction\<close>\<close>

definition text_of :: "string option \<Rightarrow> string" where
  "text_of x = (case x of None \<Rightarrow> [] | Some s \<Rightarrow> s)"

definition processing_vals :: applicant_vals where
  "processing_vals = no_vals\<lparr>v_state := Some Processing,
                             v_status := Some ''Processing: Calling Gemini API...''\<rparr>"

definition parsing_vals :: applicant_vals where
  "parsing_vals = no_vals\<lparr>v_status := Some ''Processing: Parsing response...''\<rparr>"

definition done_vals :: "string \<Rightarrow> applicant_vals" where
  "done_vals msg = no_vals\<lparr>v_state := Some Done, v_status := Some msg\<rparr>"

definition error_vals :: "string \<Rightarrow> applicant_vals" where
  "error_vals msg = no_vals\<lparr>v_state := Some Error, v_status := Some msg\<rparr>"

definition success_message :: string where
  "success_message = ''Successfully extracted data.''"

definition partial_message :: "exn \<Rightarrow> string" where
  "partial_message e =
     ''Successfully saved simple data, but failed to process skills: '' @ exn_str e"

text \<open>Steps 2 to 7 of the first savepoint, once the configuration is validated.\<close>

definition call_and_write :: "env \<Rightarrow> db \<Rightarrow> nat \<Rightarrow> string \<Rightarrow> string \<Rightarrow> attachment \<Rightarrow> exn + db \<times> json" where
  "call_and_write env d aid api_key model_name att =
     (case orm_write_applicant env d aid processing_vals of
        Inl e \<Rightarrow> Inl e
      | Inr d1 \<Rightarrow>
          (case call_gemini env api_key model_name (mimetype att) (text_of (datas att)) of
             Inl m \<Rightarrow> Inl (ExternalError m)
           | Inr response_text \<Rightarrow>
               (case orm_write_applicant env d1 aid parsing_vals of
                  Inl e \<Rightarrow> Inl e
                | Inr d2 \<Rightarrow>
                    (case parse_gemini_response env response_text of
                       Inl e \<Rightarrow> Inl e
                     | Inr extracted_data \<Rightarrow>
                         (case write_extracted_data env d2 aid extracted_data of
                            Inl e \<Rightarrow> Inl e
                          | Inr d3 \<Rightarrow>
                              (case extracted_data of
                                 JDict kv \<Rightarrow>
                                   Inr (d3,
                                     if truthy (dict_get kv ''skills'') \<and> skills_module_installed env
                                     then dict_get kv ''skills'' else JList [])
                               | _ \<Rightarrow> Inl (no_attribute extracted_data ''get'')))))))"

text \<open>Transaction step 1, the body of the first savepoint: the store it leaves and the
  value of \<open>gemini_skills_list\<close>, or the exception that leaves the savepoint.\<close>

definition core_step :: "env \<Rightarrow> db \<Rightarrow> nat \<Rightarrow> exn + db \<times> json" where
  "core_step env d aid =
     (case applicants d aid of
        None \<Rightarrow> Inl missing_record
      | Some a \<Rightarrow>
          (let co = (case company_id a of Some c \<Rightarrow> c | None \<Rightarrow> env_company env);
               api_key = gemini_api_key co;
               model_name = (if is_set (gemini_model co) then text_of (gemini_model co)
                             else ''gemini-1.5-flash-latest'')
           in if \<not> is_set api_key then Inl (UserError ''Gemini API Key is not set in HR Settings.'')
              else if model_name = [] then Inl (UserError ''Gemini Model is not set in HR Settings.'')
              else
                (case message_main_attachment_id a of
                   None \<Rightarrow> Inl (UserError ''No CV attached.'')
                 | Some att \<Rightarrow>
                     if \<not> is_set (datas att) then Inl (UserError ''Attached CV is empty.'')
                     else call_and_write env d aid (text_of api_key) model_name att)))"

text \<open>Transaction step 2, the body of the second savepoint: the log call that takes
  \<open>len(gemini_skills_list)\<close>, then \<open>_process_skills\<close>.\<close>

definition skills_step :: "env \<Rightarrow> db \<Rightarrow> nat \<Rightarrow> json \<Rightarrow> exn + db" where
  "skills_step env d aid gemini_skills_list =
     (case py_len gemini_skills_list of
        Inl e \<Rightarrow> Inl e
      | Inr n \<Rightarrow> process_skills env d aid gemini_skills_list)"

text \<open>The outer handler: the transaction is rolled back and the error state is written
  through a cursor of its own; when that write fails too, nothing more is done.\<close>

definition handle_failure :: "env \<Rightarrow> cursor \<Rightarrow> nat \<Rightarrow> exn \<Rightarrow> cursor" where
  "handle_failure env cur aid e =
     (case error_cursor_write env (rollback cur) [aid] (error_vals (''Error: '' @ exn_str e)) of
        Some cur' \<Rightarrow> cur'
      | None \<Rightarrow> rollback cur)"

text \<open>The body of the loop for one applicant.\<close>

definition extract_one :: "env \<Rightarrow> cursor \<Rightarrow> nat \<Rightarrow> cursor" where
  "extract_one env cur aid =
     (case core_step env (working cur) aid of
        Inl e \<Rightarrow> handle_failure env cur aid e
      | Inr (d1, gemini_skills_list) \<Rightarrow>
          (case (if truthy gemini_skills_list then
                   (case skills_step env d1 aid gemini_skills_list of
                      Inl e_skill \<Rightarrow> (d1, partial_message e_skill)
                    | Inr d2 \<Rightarrow> (d2, success_message))
                 else (d1, success_message)) of
             (d2, skill_status_message) \<Rightarrow>
               (case orm_write_applicant env d2 aid (done_vals skill_status_message) of
                  Inl e \<Rightarrow> handle_failure env cur aid e
                | Inr d3 \<Rightarrow>
                    (case commit env (cur\<lparr>working := d3\<rparr>) of
                       Inl e \<Rightarrow> handle_failure env cur aid e
                     | Inr cur' \<Rightarrow> cur'))))"

fun run_gemini_extraction :: "env \<Rightarrow> cursor \<Rightarrow> nat list \<Rightarrow> cursor" where
  "run_gemini_extraction env cur [] = cur"
| "run_gemini_extraction env cur (aid # aids) =
     run_gemini_extraction env (extract_one env cur aid) aids"

subsection \<open>\<open>_compute_can_extract_with_gemini\<close>, \<open>action_extract_with_gemini\<close> and the thread\<close>

definition can_extract_with_gemini :: "env \<Rightarrow> db \<Rightarrow> nat \<Rightarrow> bool" where
  "can_extract_with_gemini env d aid =
     (case applicants d aid of
        None \<Rightarrow> False
      | Some a \<Rightarrow>
          (let co = (case company_id a of Some c \<Rightarrow> c | None \<Rightarrow> env_company env);
               is_manual_mode = (gemini_cv_extract_mode co = ''manual_send'');
               can_retry = (gemini_extract_state a \<in> {NoExtract, Error, Done})
           in is_manual_mode \<and> message_main_attachment_id a \<noteq> None \<and> can_retry))"

definition pending_vals :: applicant_vals where
  "pending_vals = no_vals\<lparr>v_state := Some Pending,
                          v_status := Some ''Pending: Queued for extraction...''\<rparr>"

text \<open>\<open>write\<close> on a set of applicants.\<close>

fun orm_write_applicants :: "env \<Rightarrow> db \<Rightarrow> nat list \<Rightarrow> applicant_vals \<Rightarrow> exn + db" where
  "orm_write_applicants env d [] vals = Inr d"
| "orm_write_applicants env d (aid # aids) vals =
     (case orm_write_applicant env d aid vals of
        Inl e \<Rightarrow> Inl e
      | Inr d' \<Rightarrow> orm_write_applicants env d' aids vals)"

text \<open>The action returns the cursor after its commit and the identifiers that it hands
  to the thread, or the exception that it raises to its caller.\<close>

definition action_extract_with_gemini :: "env \<Rightarrow> cursor \<Rightarrow> nat list \<Rightarrow> exn + cursor \<times> nat list" where
  "action_extract_with_gemini env cur aids =
     (let applicants_to_process = filter (can_extract_with_gemini env (working cur)) aids
      in if applicants_to_process = [] then
           Inl (UserError ''There are no applicants here that are ready for extraction.'')
         else
           (case orm_write_applicants env (working cur) applicants_to_process pending_vals of
              Inl e \<Rightarrow> Inl e
            | Inr d' \<Rightarrow>
                (case commit env (cur\<lparr>working := d'\<rparr>) of
                   Inl e \<Rightarrow> Inl e
                 | Inr cur' \<Rightarrow> Inr (cur', applicants_to_process))))"

text \<open>The thread works on a cursor of its own, which sees the committed store.\<close>

definition run_gemini_extraction_in_thread :: "env \<Rightarrow> db \<Rightarrow> nat list \<Rightarrow> db" where
  "run_gemini_extraction_in_thread env d aids =
     (case fault env OpenCursor of
        None \<Rightarrow> committed (run_gemini_extraction env \<lparr>committed = d, working = d\<rparr> aids)
      | Some m \<Rightarrow>
          (case error_cursor_write env \<lparr>committed = d, working = d\<rparr> aids
                  (error_vals (''Thread Error: '' @ m)) of
             Some cur \<Rightarrow> committed cur
           | None \<Rightarrow> d))"

subsection \<open>A small configuration for the concrete cases\<close>

definition demo_company :: company where
  "demo_company = \<lparr>gemini_cv_extract_mode = ''manual_send'', gemini_api_key = Some ''key'',
                    gemini_model = None\<rparr>"

definition demo_env :: env where
  "demo_env = \<lparr>json_loads = (\<lambda>s. None),
      call_gemini = (\<lambda>k m t d. Inl ''unavailable''),
      py_repr = (\<lambda>v. []), coerce_char = (\<lambda>v. []),
      skills_module_installed = True, env_company = demo_company, fault = (\<lambda>c. None)\<rparr>"

definition demo_attachment :: attachment where
  "demo_attachment = \<lparr>datas = Some ''JVBERi0='', mimetype = ''application/pdf''\<rparr>"

definition demo_applicant :: applicant where
  "demo_applicant = \<lparr>name = Some (''Test Applicant'' @ application_suffix), partner_name = None,
      email_from = None, partner_phone = None, linkedin_profile = None, type_id = None,
      gemini_extract_state = Pending, gemini_extract_status = None,
      message_main_attachment_id = Some demo_attachment, company_id = None\<rparr>"

definition demo_db :: db where
  "demo_db = \<lparr>applicants = [1 \<mapsto> demo_applicant], degrees = [], skill_types = [],
               skill_levels = [], skills = [], applicant_skills = []\<rparr>"

definition refuse_degrees :: "orm_call \<Rightarrow> string option" where
  "refuse_degrees c = (case c of CreateDegree g \<Rightarrow> Some ''permission denied'' | _ \<Rightarrow> None)"



text \<open>A provider whose response decodes to a payload with a number for the skills.\<close>

definition skills_number_response :: string where
  \<open>skills_number_response = ''{"skills": 5}''\<close>

definition skills_number_env :: env where
  "skills_number_env = demo_env\<lparr>
      call_gemini := (\<lambda>k m t d. Inr skills_number_response),
      json_loads := (\<lambda>s. if s = skills_number_response then Some (JDict [(''skills'', JInt 5)])
                          else None)\<rparr>"

definition demo_cursor :: cursor where
  "demo_cursor = \<lparr>committed = demo_db, working = demo_db\<rparr>"

definition refuse_error_write :: "orm_call \<Rightarrow> string option" where
  "refuse_error_write c =
     (case c of ErrorCursorWrite aids vals \<Rightarrow> Some ''connection lost'' | _ \<Rightarrow> None)"

text \<open>A provider that answers with text that holds no complete object.\<close>

definition unterminated_response :: string where
  "unterminated_response = ''Here is the data: { 'name': 'test' ''"

definition unterminated_env :: env where
  "unterminated_env = demo_env\<lparr>call_gemini := (\<lambda>k m t d. Inr unterminated_response)\<rparr>"

text \<open>A provider whose response decodes to a payload with two skills, the second with a
  number for its name.\<close>

definition two_skills_response :: string where
  \<open>two_skills_response =
     ''{"name": "John Doe", "skills": [{"skill": "Python"}, {"skill": 5}]}''\<close>

definition two_skills_payload :: json where
  "two_skills_payload =
     JDict [(''name'', JStr ''John Doe''),
            (''skills'', JList [JDict [(''skill'', JStr ''Python'')], JDict [(''skill'', JInt 5)]])]"

definition two_skills_env :: env where
  "two_skills_env = demo_env\<lparr>
      call_gemini := (\<lambda>k m t d. Inr two_skills_response),
      json_loads := (\<lambda>s. if s = two_skills_response then Some two_skills_payload else None)\<rparr>"

text \<open>A company with no API key, and an applicant that has not been submitted.\<close>

definition nokey_env :: env where
  "nokey_env = demo_env\<lparr>env_company := demo_company\<lparr>gemini_api_key := None\<rparr>\<rparr>"

definition fresh_applicant :: applicant where
  "fresh_applicant = demo_applicant\<lparr>gemini_extract_state := NoExtract\<rparr>"

definition fresh_db :: db where
  "fresh_db = demo_db\<lparr>applicants := [1 \<mapsto> fresh_applicant]\<rparr>"

definition fresh_cursor :: cursor where
  "fresh_cursor = \<lparr>committed = fresh_db, working = fresh_db\<rparr>"

text \<open>The committed state of an applicant after the action, when it succeeds.\<close>

definition state_after :: "exn + cursor \<times> nat list \<Rightarrow> nat \<Rightarrow> extract_state option" where
  "state_after r aid =
     (case r of
        Inl e \<Rightarrow> None
      | Inr (cur, ids) \<Rightarrow> map_option gemini_extract_state (applicants (committed cur) aid))"

subsection \<open>The links of an applicant\<close>

text \<open>At most one link for a pair of applicant and skill.\<close>

definition links_unique :: "db \<Rightarrow> bool" where
  "links_unique d = distinct (map (\<lambda>r. (applicant_id r, skill_id r)) (applicant_skills d))"


text \<open>The skill that a search by name yields, for a name in lower case.\<close>

definition first_skill :: "db \<Rightarrow> string \<Rightarrow> nat option" where
  "first_skill d k = map_option sk_id (find (\<lambda>x. lower (sk_name x) = k) (skills d))"

text \<open>The skill of that name is linked to the applicant.\<close>

definition linked :: "db \<Rightarrow> nat \<Rightarrow> string \<Rightarrow> bool" where
  "linked d aid k =
     (case first_skill d k of None \<Rightarrow> False | Some i \<Rightarrow> search_link d aid i \<noteq> None)"

text \<open>The cache of skills agrees with the store.\<close>

definition skill_cache_ok :: "skills_run \<Rightarrow> bool" where
  "skill_cache_ok st = (\<forall>k i. skill_cache st k = Some i \<longrightarrow> first_skill (run_db st) k = Some i)"

text \<open>The names of the skills that the items of a list give: an item counts when it is
  an object whose skill name has a truth value.\<close>

fun named_skills :: "json list \<Rightarrow> json list" where
  "named_skills [] = []"
| "named_skills (JDict kv # rest) =
     (if truthy (dict_get kv ''skill'') then dict_get kv ''skill'' # named_skills rest
      else named_skills rest)"
| "named_skills (v # rest) = named_skills rest"



subsection \<open>The outcome of a job for an applicant\<close>

text \<open>An applicant after an operation is as it was, or is in state Done or Error.\<close>

definition settled :: "db \<Rightarrow> db \<Rightarrow> nat \<Rightarrow> bool" where
  "settled d d' x \<longleftrightarrow>
     applicants d' x = applicants d x
     \<or> (\<exists>a'. applicants d' x = Some a'
           \<and> (gemini_extract_state a' = Done \<or> gemini_extract_state a' = Error))"


section \<open>Evaluation of the concrete cases\<close>

lemmas store_defs = orm_write_applicant_def apply_vals_def upd_field_def no_vals_def
  search_degree_def create_degree_def fresh_id_def ilike_eq_def dict_get_def
  char_value_def py_str_def is_set_def

lemmas demo_defs = demo_env_def demo_db_def demo_applicant_def demo_company_def demo_attachment_def

lemmas lower_defs = lower_def lower_chr_def ascii_upper_def ascii_lower_def

lemmas writer_defs = write_extracted_data_def name_entries_def contact_entries_def
  degree_entry_def


lemmas job_defs = extract_one_def core_step_def call_and_write_def skills_step_def
  handle_failure_def error_cursor_write_def commit_def rollback_def
  processing_vals_def parsing_vals_def done_vals_def error_vals_def
  success_message_def partial_message_def text_of_def

lemmas parser_defs = parse_gemini_response_def decode_def search_fence_def search_brace_def
  fence_open_def fence_close_def strip_def is_space_def invalid_response_def


lemmas skills_defs = process_skills_def process_skill_def find_or_create_type_def
  resolve_skill_level_def lookup_level_def use_default_level_def
  get_or_create_default_skill_level_def associate_level_def find_or_create_skill_def
  link_skill_def start_run_def search_skill_type_def create_skill_type_def
  search_level_exact_def search_level_name_def search_level_lowest_def create_skill_level_def
  level_ids_of_def add_level_to_type_def search_skill_def create_skill_def
  write_skill_type_def search_link_def create_link_def no_attribute_def


section \<open>The response parser\<close>

lemma starts_with_iff: "starts_with p s \<longleftrightarrow> (\<exists>t. s = p @ t)"
  by (induction p s rule: starts_with.induct) auto












section \<open>The field writer\<close>

lemma ends_with_iff: "ends_with s p \<longleftrightarrow> (\<exists>q. s = q @ p)"
proof -
  have "ends_with s p \<longleftrightarrow> (\<exists>t. rev s = rev p @ t)"
    by (simp add: ends_with_def starts_with_iff)
  also have "\<dots> \<longleftrightarrow> (\<exists>q. s = q @ p)"
  proof
    assume "\<exists>t. rev s = rev p @ t"
    then obtain t where "rev s = rev p @ t" ..
    then have "rev (rev s) = rev (rev p @ t)" by simp
    then have "s = rev t @ p" by simp
    then show "\<exists>q. s = q @ p" ..
  next
    assume "\<exists>q. s = q @ p"
    then obtain q where "s = q @ p" ..
    then have "rev s = rev p @ rev q" by simp
    then show "\<exists>t. rev s = rev p @ t" ..
  qed
  finally show ?thesis .
qed

lemma orm_write_applicant_InrD:
  assumes "orm_write_applicant env d aid vals = Inr d'"
  shows "\<exists>a. applicants d aid = Some a
           \<and> d' = d\<lparr>applicants := (applicants d)(aid \<mapsto> apply_vals vals a)\<rparr>"
  using assms by (auto simp: orm_write_applicant_def split: option.splits)

lemma degree_entry_frame:
  assumes "degree_entry env d dg vals = (d', vals')"
  shows "applicants d' = applicants d" "v_name vals' = v_name vals"
    "v_partner_name vals' = v_partner_name vals" "v_email_from vals' = v_email_from vals"
    "v_partner_phone vals' = v_partner_phone vals"
    "v_linkedin_profile vals' = v_linkedin_profile vals"
    "v_state vals' = v_state vals" "v_status vals' = v_status vals"
    "skill_types d' = skill_types d" "skill_levels d' = skill_levels d"
    "skills d' = skills d" "applicant_skills d' = applicant_skills d"
  using assms
  by (auto simp: degree_entry_def create_degree_def Let_def split: if_splits option.splits sum.splits)

lemma contact_entries_frame:
  "v_name (contact_entries env kv v) = v_name v"
  "v_partner_name (contact_entries env kv v) = v_partner_name v"
  "v_type_id (contact_entries env kv v) = v_type_id v"
  "v_state (contact_entries env kv v) = v_state v"
  "v_status (contact_entries env kv v) = v_status v"
  by (simp_all add: contact_entries_def Let_def)

lemma dict_get_truthy_nonempty: "truthy (dict_get kv k) \<Longrightarrow> kv \<noteq> []"
  by (auto simp: dict_get_def)


text \<open>
  Claim C8. When the payload carries a name (a non-empty string \<open>n\<close>) and the write goes
  through, the display name of the applicant afterwards is \<open>n\<close> followed by
  \<open>'s Application\<close> exactly when the display name before was not set, was empty, or ended
  with \<open>'s Application\<close> (the convention, whatever stands before the suffix); in every
  other case the display name is the one the record had.
\<close>

theorem display_name_policy:
  assumes "applicants d aid = Some a"
    and "dict_get kv ''name'' = JStr n" and "n \<noteq> []"
    and "write_extracted_data env d aid (JDict kv) = Inr d'"
  shows "\<exists>a'. applicants d' aid = Some a' \<and>
           name a' = (if name a = None \<or> name a = Some [] \<or> (\<exists>p. name a = Some (p @ application_suffix))
                      then Some (n @ application_suffix) else name a)"
proof -
  have tr: "truthy (dict_get kv ''name'')" using assms(2,3) by simp
  then have kv: "kv \<noteq> []" by (rule dict_get_truthy_nonempty)
  define replace where
    "replace \<longleftrightarrow> \<not> is_set (name a) \<or> ends_with (case name a of None \<Rightarrow> [] | Some s \<Rightarrow> s) application_suffix"
  define v1 where "v1 = no_vals\<lparr>v_partner_name := Some n,
      v_name := (if replace then Some (n @ application_suffix) else None)\<rparr>"
  have nu: "name_entries env d aid (dict_get kv ''name'') = Inr v1"
    using assms(1,2,3)
    by (simp add: name_entries_def v1_def replace_def Let_def char_value_def py_str_def)
  define v4 where "v4 = contact_entries env kv v1"
  obtain d1 vals where du: "degree_entry env d (dict_get kv ''degree'') v4 = (d1, vals)"
    by (cases "degree_entry env d (dict_get kv ''degree'') v4")
  from assms(4) kv nu du
  have wr: "(if vals \<noteq> no_vals then orm_write_applicant env d1 aid vals else Inr d1) = Inr d'"
    by (simp add: write_extracted_data_def v4_def)
  have v4: "v_name v4 = v_name v1" "v_partner_name v4 = v_partner_name v1"
    by (simp_all add: v4_def contact_entries_frame)
  from degree_entry_frame [OF du] v4
  have vn: "v_name vals = v_name v1" and vp: "v_partner_name vals = Some n"
    and ap: "applicants d1 = applicants d"
    by (simp_all add: v1_def)
  have "vals \<noteq> no_vals" using vp by (auto simp: no_vals_def)
  with wr have "orm_write_applicant env d1 aid vals = Inr d'" by simp
  from orm_write_applicant_InrD [OF this] ap assms(1)
  have d': "applicants d' aid = Some (apply_vals vals a)" by auto
  have rep: "replace \<longleftrightarrow> name a = None \<or> name a = Some [] \<or> (\<exists>p. name a = Some (p @ application_suffix))"
    by (cases "name a") (auto simp: replace_def is_set_def ends_with_iff application_suffix_def)
  have "name (apply_vals vals a) = (if replace then Some (n @ application_suffix) else name a)"
    using vn by (simp add: apply_vals_def upd_field_def v1_def)
  with d' rep show ?thesis by simp
qed

theorem display_name_policy_witness:
  "\<exists>d' a'. write_extracted_data demo_env demo_db 1 (JDict [(''name'', JStr ''John Doe'')]) = Inr d'
      \<and> applicants d' 1 = Some a' \<and> name a' = Some (''John Doe'' @ application_suffix)"
proof -
  obtain d' where w: "write_extracted_data demo_env demo_db 1 (JDict [(''name'', JStr ''John Doe'')]) = Inr d'"
    by (simp add: write_extracted_data_def name_entries_def contact_entries_def degree_entry_def
          store_defs demo_defs)
  have a: "applicants demo_db 1 = Some demo_applicant" by (simp add: demo_db_def)
  have g: "dict_get [(''name'', JStr ''John Doe'')] ''name'' = JStr ''John Doe''"
    by (simp add: dict_get_def)
  from display_name_policy [OF a g _ w]
  obtain a' where "applicants d' 1 = Some a'"
    "name a' = (if name demo_applicant = None \<or> name demo_applicant = Some [] \<or>
                 (\<exists>p. name demo_applicant = Some (p @ application_suffix))
                then Some (''John Doe'' @ application_suffix) else name demo_applicant)"
    by auto
  moreover have "\<exists>p. name demo_applicant = Some (p @ application_suffix)"
    by (simp add: demo_applicant_def)
  ultimately show ?thesis using w by auto
qed

lemma map_of_filter_key:
  "map_of (filter (\<lambda>e. fst e \<noteq> k0) kv) k = (if k = k0 then None else map_of kv k)"
  by (induction kv) auto

lemma dict_get_filter_key:
  "dict_get (filter (\<lambda>e. fst e \<noteq> k0) kv) k = (if k = k0 then JNull else dict_get kv k)"
  by (simp add: dict_get_def map_of_filter_key)

lemma filter_key_Nil_dict_get:
  assumes "filter (\<lambda>e. fst e \<noteq> k0) kv = []" and "k \<noteq> k0"
  shows "dict_get kv k = JNull"
proof -
  have "dict_get (filter (\<lambda>e. fst e \<noteq> k0) kv) k = dict_get kv k"
    using assms(2) by (simp add: dict_get_filter_key)
  with assms(1) show ?thesis by (simp add: dict_get_def)
qed

lemma contact_entries_cong:
  assumes "dict_get kv' ''email'' = dict_get kv ''email''"
    and "dict_get kv' ''phone'' = dict_get kv ''phone''"
    and "dict_get kv' ''linkedin'' = dict_get kv ''linkedin''"
  shows "contact_entries env kv' v = contact_entries env kv v"
  using assms by (simp add: contact_entries_def)

lemma contact_entries_no_vals:
  assumes "\<not> truthy (dict_get kv ''email'')" "\<not> truthy (dict_get kv ''phone'')"
    "\<not> truthy (dict_get kv ''linkedin'')"
  shows "contact_entries env kv v = v"
  using assms by (simp add: contact_entries_def)

lemma search_degree_find:
  "search_degree d g = map_option degree_id (find (\<lambda>x. lower (degree_name x) = lower g) (degrees d))"
  by (simp add: search_degree_def ilike_eq_def)

lemma find_None_iff_ball: "find P xs = None \<longleftrightarrow> (\<forall>x\<in>set xs. \<not> P x)"
  by (auto simp: find_None_iff)

lemma degree_entry_found:
  assumes "g \<noteq> []"
    and "find (\<lambda>x. lower (degree_name x) = lower g) (degrees d) = Some x"
  shows "degree_entry env d (JStr g) v = (d, v\<lparr>v_type_id := Some (degree_id x)\<rparr>)"
  using assms by (simp add: degree_entry_def char_value_def search_degree_find)

lemma degree_entry_created:
  assumes "g \<noteq> []"
    and "\<forall>x\<in>set (degrees d). lower (degree_name x) \<noteq> lower g"
    and "fault env (CreateDegree g) = None"
  shows "degree_entry env d (JStr g) v =
           (d\<lparr>degrees := degrees d @
                 [\<lparr>degree_id = fresh_id (map degree_id (degrees d)), degree_name = g\<rparr>]\<rparr>,
            v\<lparr>v_type_id := Some (fresh_id (map degree_id (degrees d)))\<rparr>)"
proof -
  have "find (\<lambda>x. lower (degree_name x) = lower g) (degrees d) = None"
    using assms(2) by (simp add: find_None_iff_ball)
  then show ?thesis
    using assms(1,3)
    by (simp add: degree_entry_def char_value_def search_degree_find create_degree_def Let_def)
qed

lemma degree_entry_swallowed:
  assumes "g \<noteq> []"
    and "\<forall>x\<in>set (degrees d). lower (degree_name x) \<noteq> lower g"
    and "fault env (CreateDegree g) \<noteq> None"
  shows "degree_entry env d (JStr g) v = (d, v)"
proof -
  have "find (\<lambda>x. lower (degree_name x) = lower g) (degrees d) = None"
    using assms(2) by (simp add: find_None_iff_ball)
  then show ?thesis
    using assms(1,3)
    by (auto simp: degree_entry_def char_value_def search_degree_find create_degree_def Let_def)
qed

lemma type_id_entry_not_empty: "v\<lparr>v_type_id := Some i\<rparr> \<noteq> no_vals"
proof
  assume "v\<lparr>v_type_id := Some i\<rparr> = no_vals"
  then have "v_type_id (v\<lparr>v_type_id := Some i\<rparr>) = v_type_id no_vals" by simp
  then show False by (simp add: no_vals_def)
qed

lemma write_with_vals:
  assumes "(if vals \<noteq> no_vals then orm_write_applicant env d1 aid vals else Inr d1) = Inr d'"
  shows "degrees d' = degrees d1"
    and "\<And>a. applicants d1 aid = Some a \<Longrightarrow> applicants d' aid = Some (apply_vals vals a)"
proof -
  show "degrees d' = degrees d1"
    using assms by (auto simp: orm_write_applicant_def split: if_splits option.splits)
  show "applicants d' aid = Some (apply_vals vals a)" if "applicants d1 aid = Some a" for a
  proof (cases "vals = no_vals")
    case True
    then have "apply_vals vals a = a" by (simp add: apply_vals_def no_vals_def upd_field_def)
    with True assms that show ?thesis by simp
  next
    case False
    with assms that show ?thesis
      by (auto simp: orm_write_applicant_def split: option.splits)
  qed
qed

lemma write_extracted_data_dict:
  assumes "kv \<noteq> []"
    and "name_entries env d aid (dict_get kv ''name'') = Inr v1"
    and "degree_entry env d (dict_get kv ''degree'') (contact_entries env kv v1) = (d1, vals)"
  shows "write_extracted_data env d aid (JDict kv) =
           (if vals \<noteq> no_vals then orm_write_applicant env d1 aid vals else Inr d1)"
  using assms by (simp add: write_extracted_data_def)

lemma write_extracted_data_InrD:
  assumes "write_extracted_data env d aid (JDict kv) = Inr d'" and "kv \<noteq> []"
  obtains v1 where "name_entries env d aid (dict_get kv ''name'') = Inr v1"
  using assms by (auto simp: write_extracted_data_def split: sum.splits)

lemma name_entries_total:
  assumes "applicants d aid = Some a"
  obtains v1 where "name_entries env d aid nm = Inr v1"
    "v_type_id v1 = None" "v_email_from v1 = None" "v_partner_phone v1 = None"
    "v_linkedin_profile v1 = None"
    "v_partner_name v1 = (if truthy nm then Some (char_value env nm) else None)"
proof (cases "truthy nm")
  case True
  show ?thesis
    by (rule that [of "no_vals\<lparr>v_partner_name := Some (char_value env nm),
          v_name := (if \<not> is_set (name a) \<or>
                        ends_with (case name a of None \<Rightarrow> [] | Some s \<Rightarrow> s) application_suffix
                     then Some (py_str env nm @ application_suffix) else None)\<rparr>"])
       (simp_all add: name_entries_def Let_def no_vals_def assms True)
next
  case False
  show ?thesis
    by (rule that [of no_vals]) (simp_all add: name_entries_def no_vals_def False)
qed


text \<open>
  Claim C9. For a payload that carries a degree name \<open>g\<close> (a non-empty string): the degree
  is the first one whose name equals \<open>g\<close> up to the case of letters, and the applicant
  then refers to it, no degree being created; when there is none, a degree with just that
  name is created and referred to; when that creation is refused, the failure is passed
  over: the writer behaves exactly as on the payload without the degree, no degree is
  created, the degree reference of the applicant stays as it was, and (the store accepting
  the write to the applicant) the other simple fields of the payload are written.
\<close>

theorem degree_resolution:
  assumes "dict_get kv ''degree'' = JStr g" and "g \<noteq> []"
  shows
   "(\<forall>x d'. find (\<lambda>x. lower (degree_name x) = lower g) (degrees d) = Some x
        \<and> write_extracted_data env d aid (JDict kv) = Inr d' \<longrightarrow>
        degrees d' = degrees d
        \<and> (\<exists>a'. applicants d' aid = Some a' \<and> type_id a' = Some (degree_id x)))
    \<and> (\<forall>d'. (\<forall>x\<in>set (degrees d). lower (degree_name x) \<noteq> lower g)
        \<and> fault env (CreateDegree g) = None
        \<and> write_extracted_data env d aid (JDict kv) = Inr d' \<longrightarrow>
        degrees d' = degrees d @
           [\<lparr>degree_id = fresh_id (map degree_id (degrees d)), degree_name = g\<rparr>]
        \<and> (\<exists>a'. applicants d' aid = Some a'
              \<and> type_id a' = Some (fresh_id (map degree_id (degrees d)))))
    \<and> ((\<forall>x\<in>set (degrees d). lower (degree_name x) \<noteq> lower g)
        \<and> fault env (CreateDegree g) \<noteq> None \<longrightarrow>
        write_extracted_data env d aid (JDict kv) =
          write_extracted_data env d aid (JDict (filter (\<lambda>e. fst e \<noteq> ''degree'') kv))
        \<and> (\<forall>a. applicants d aid = Some a
               \<and> (\<forall>vals. fault env (WriteApplicant aid vals) = None) \<longrightarrow>
             (\<exists>d' a'. write_extracted_data env d aid (JDict kv) = Inr d'
                \<and> degrees d' = degrees d \<and> applicants d' aid = Some a'
                \<and> type_id a' = type_id a
                \<and> (truthy (dict_get kv ''name'') \<longrightarrow>
                     partner_name a' = Some (char_value env (dict_get kv ''name'')))
                \<and> (truthy (dict_get kv ''email'') \<longrightarrow>
                     email_from a' = Some (char_value env (dict_get kv ''email'')))
                \<and> (truthy (dict_get kv ''phone'') \<longrightarrow>
                     partner_phone a' = Some (char_value env (dict_get kv ''phone'')))
                \<and> (truthy (dict_get kv ''linkedin'') \<longrightarrow>
                     linkedin_profile a' = Some (char_value env (dict_get kv ''linkedin''))))))"
proof (intro conjI allI impI)
  have kv: "kv \<noteq> []" using assms by (auto simp: dict_get_def)
  {
    fix x d'
    assume h: "find (\<lambda>x. lower (degree_name x) = lower g) (degrees d) = Some x
        \<and> write_extracted_data env d aid (JDict kv) = Inr d'"
    then obtain v1 where v1: "name_entries env d aid (dict_get kv ''name'') = Inr v1"
      using kv by (auto elim: write_extracted_data_InrD)
    then have a: "applicants d aid \<noteq> None \<or> \<not> truthy (dict_get kv ''name'')"
      by (auto simp: name_entries_def split: if_splits option.splits)
    let ?vals = "(contact_entries env kv v1)\<lparr>v_type_id := Some (degree_id x)\<rparr>"
    have du: "degree_entry env d (dict_get kv ''degree'') (contact_entries env kv v1) = (d, ?vals)"
      using assms h by (simp add: degree_entry_found)
    have ne: "?vals \<noteq> no_vals" by (rule type_id_entry_not_empty)
    from write_extracted_data_dict [OF kv v1 du] h ne
    have w: "orm_write_applicant env d aid ?vals = Inr d'" by simp
    then obtain a0 where a0: "applicants d aid = Some a0"
      and d': "d' = d\<lparr>applicants := (applicants d)(aid \<mapsto> apply_vals ?vals a0)\<rparr>"
      using orm_write_applicant_InrD by blast
    show "degrees d' = degrees d" using d' by simp
    show "\<exists>a'. applicants d' aid = Some a' \<and> type_id a' = Some (degree_id x)"
      using d' by (simp add: apply_vals_def upd_field_def)
  }
  {
    fix d'
    assume h: "(\<forall>x\<in>set (degrees d). lower (degree_name x) \<noteq> lower g)
        \<and> fault env (CreateDegree g) = None
        \<and> write_extracted_data env d aid (JDict kv) = Inr d'"
    then obtain v1 where v1: "name_entries env d aid (dict_get kv ''name'') = Inr v1"
      using kv by (auto elim: write_extracted_data_InrD)
    let ?i = "fresh_id (map degree_id (degrees d))"
    let ?d1 = "d\<lparr>degrees := degrees d @ [\<lparr>degree_id = ?i, degree_name = g\<rparr>]\<rparr>"
    let ?vals = "(contact_entries env kv v1)\<lparr>v_type_id := Some ?i\<rparr>"
    have du: "degree_entry env d (dict_get kv ''degree'') (contact_entries env kv v1) = (?d1, ?vals)"
      using assms h by (simp add: degree_entry_created)
    have ne: "?vals \<noteq> no_vals" by (rule type_id_entry_not_empty)
    from write_extracted_data_dict [OF kv v1 du] h ne
    have w: "orm_write_applicant env ?d1 aid ?vals = Inr d'" by simp
    then obtain a0 where a0: "applicants ?d1 aid = Some a0"
      and d': "d' = ?d1\<lparr>applicants := (applicants ?d1)(aid \<mapsto> apply_vals ?vals a0)\<rparr>"
      using orm_write_applicant_InrD by blast
    show "degrees d' = degrees d @ [\<lparr>degree_id = ?i, degree_name = g\<rparr>]" using d' by simp
    show "\<exists>a'. applicants d' aid = Some a' \<and> type_id a' = Some ?i"
      using d' by (simp add: apply_vals_def upd_field_def)
  }
  {
    assume h: "(\<forall>x\<in>set (degrees d). lower (degree_name x) \<noteq> lower g)
        \<and> fault env (CreateDegree g) \<noteq> None"
    let ?kv' = "filter (\<lambda>e. fst e \<noteq> ''degree'') kv"
    have sw: "degree_entry env d (dict_get kv ''degree'') v = (d, v)" for v
      using assms h by (simp add: degree_entry_swallowed)
    have cu: "contact_entries env ?kv' v = contact_entries env kv v" for v
      by (rule contact_entries_cong) (simp_all add: dict_get_filter_key)
    have nm: "dict_get ?kv' ''name'' = dict_get kv ''name''"
      by (simp add: dict_get_filter_key)
    have dg': "degree_entry env d (dict_get ?kv' ''degree'') v = (d, v)" for v
      by (simp add: dict_get_filter_key degree_entry_def)
    show "write_extracted_data env d aid (JDict kv) = write_extracted_data env d aid (JDict ?kv')"
    proof (cases "?kv' = []")
      case True
      have n1: "dict_get kv ''name'' = JNull" "dict_get kv ''email'' = JNull"
        "dict_get kv ''phone'' = JNull" "dict_get kv ''linkedin'' = JNull"
        using True by (simp_all add: filter_key_Nil_dict_get)
      have "name_entries env d aid (dict_get kv ''name'') = Inr no_vals"
        using n1 by (simp add: name_entries_def)
      moreover have "contact_entries env kv no_vals = no_vals"
        using n1 by (simp add: contact_entries_no_vals)
      ultimately have "write_extracted_data env d aid (JDict kv) = Inr d"
        using kv sw by (simp add: write_extracted_data_def)
      moreover have "write_extracted_data env d aid (JDict ?kv') = Inr d"
        using True by (simp add: write_extracted_data_def)
      ultimately show ?thesis by simp
    next
      case False
      show ?thesis
        using kv False sw dg' cu nm
        by (simp add: write_extracted_data_def split: sum.splits)
    qed
  }
  {
    fix a
    assume h: "(\<forall>x\<in>set (degrees d). lower (degree_name x) \<noteq> lower g)
        \<and> fault env (CreateDegree g) \<noteq> None"
      and h2: "applicants d aid = Some a \<and> (\<forall>vals. fault env (WriteApplicant aid vals) = None)"
    have sw: "degree_entry env d (dict_get kv ''degree'') v = (d, v)" for v
      using assms h by (simp add: degree_entry_swallowed)
    from h2 obtain v1 where v1: "name_entries env d aid (dict_get kv ''name'') = Inr v1"
      and f: "v_type_id v1 = None" "v_email_from v1 = None" "v_partner_phone v1 = None"
        "v_linkedin_profile v1 = None"
        "v_partner_name v1 = (if truthy (dict_get kv ''name'')
                              then Some (char_value env (dict_get kv ''name'')) else None)"
      by (auto elim: name_entries_total)
    let ?vals = "contact_entries env kv v1"
    let ?d' = "if ?vals \<noteq> no_vals then d\<lparr>applicants := (applicants d)(aid \<mapsto> apply_vals ?vals a)\<rparr> else d"
    have w: "write_extracted_data env d aid (JDict kv) =
               (if ?vals \<noteq> no_vals then orm_write_applicant env d aid ?vals else Inr d)"
      using write_extracted_data_dict [OF kv v1 sw] .
    have ow: "orm_write_applicant env d aid ?vals =
                Inr (d\<lparr>applicants := (applicants d)(aid \<mapsto> apply_vals ?vals a)\<rparr>)"
      using h2 by (simp add: orm_write_applicant_def)
    have r: "write_extracted_data env d aid (JDict kv) = Inr ?d'"
      using w ow by simp
    have ap: "applicants ?d' aid = Some (apply_vals ?vals a)"
      using h2 by (simp add: apply_vals_def no_vals_def upd_field_def)
    have dg: "degrees ?d' = degrees d" by simp
    have fields:
      "type_id (apply_vals ?vals a) = type_id a"
      "truthy (dict_get kv ''name'') \<longrightarrow>
         partner_name (apply_vals ?vals a) = Some (char_value env (dict_get kv ''name''))"
      "truthy (dict_get kv ''email'') \<longrightarrow>
         email_from (apply_vals ?vals a) = Some (char_value env (dict_get kv ''email''))"
      "truthy (dict_get kv ''phone'') \<longrightarrow>
         partner_phone (apply_vals ?vals a) = Some (char_value env (dict_get kv ''phone''))"
      "truthy (dict_get kv ''linkedin'') \<longrightarrow>
         linkedin_profile (apply_vals ?vals a) = Some (char_value env (dict_get kv ''linkedin''))"
      using f by (simp_all add: apply_vals_def upd_field_def contact_entries_def Let_def)
    from r ap dg fields
    show "\<exists>d' a'. write_extracted_data env d aid (JDict kv) = Inr d'
                \<and> degrees d' = degrees d \<and> applicants d' aid = Some a'
                \<and> type_id a' = type_id a
                \<and> (truthy (dict_get kv ''name'') \<longrightarrow>
                     partner_name a' = Some (char_value env (dict_get kv ''name'')))
                \<and> (truthy (dict_get kv ''email'') \<longrightarrow>
                     email_from a' = Some (char_value env (dict_get kv ''email'')))
                \<and> (truthy (dict_get kv ''phone'') \<longrightarrow>
                     partner_phone a' = Some (char_value env (dict_get kv ''phone'')))
                \<and> (truthy (dict_get kv ''linkedin'') \<longrightarrow>
                     linkedin_profile a' = Some (char_value env (dict_get kv ''linkedin'')))"
      by blast
  }
qed

theorem degree_resolution_witness:
  "(\<exists>d' a'. write_extracted_data demo_env
        (demo_db\<lparr>degrees := [\<lparr>degree_id = 7, degree_name = ''bsc''\<rparr>]\<rparr>) 1
        (JDict [(''email'', JStr ''j@d.com''), (''degree'', JStr ''BSc'')]) = Inr d'
      \<and> degrees d' = [\<lparr>degree_id = 7, degree_name = ''bsc''\<rparr>]
      \<and> applicants d' 1 = Some a' \<and> type_id a' = Some 7)
   \<and> (\<exists>d' a'. write_extracted_data demo_env demo_db 1
        (JDict [(''email'', JStr ''j@d.com''), (''degree'', JStr ''BSc'')]) = Inr d'
      \<and> degrees d' = [\<lparr>degree_id = 1, degree_name = ''BSc''\<rparr>]
      \<and> applicants d' 1 = Some a' \<and> type_id a' = Some 1)
   \<and> (\<exists>d' a'. write_extracted_data (demo_env\<lparr>fault := refuse_degrees\<rparr>) demo_db 1
        (JDict [(''email'', JStr ''j@d.com''), (''degree'', JStr ''BSc'')]) = Inr d'
      \<and> degrees d' = [] \<and> applicants d' 1 = Some a' \<and> type_id a' = None
      \<and> email_from a' = Some ''j@d.com'')"
proof -
  let ?kv = "[(''email'', JStr ''j@d.com''), (''degree'', JStr ''BSc'')]"
  let ?d7 = "demo_db\<lparr>degrees := [\<lparr>degree_id = 7, degree_name = ''bsc''\<rparr>]\<rparr>"
  let ?env3 = "demo_env\<lparr>fault := refuse_degrees\<rparr>"
  have g: "dict_get ?kv ''degree'' = JStr ''BSc''" and ne: "''BSc'' \<noteq> []"
    by (simp_all add: dict_get_def)
  have e: "truthy (dict_get ?kv ''email'')" "char_value ?env3 (dict_get ?kv ''email'') = ''j@d.com''"
    by (simp_all add: dict_get_def char_value_def)
  have f1: "find (\<lambda>x. lower (degree_name x) = lower ''BSc'') (degrees ?d7)
              = Some \<lparr>degree_id = 7, degree_name = ''bsc''\<rparr>"
    by (simp add: lower_defs)
  obtain d1 where w1: "write_extracted_data demo_env ?d7 1 (JDict ?kv) = Inr d1"
    by (simp add: writer_defs store_defs demo_defs lower_defs)
  from degree_resolution [OF g ne, of ?d7 demo_env 1] f1 w1
  have c1: "degrees d1 = degrees ?d7 \<and> (\<exists>a'. applicants d1 1 = Some a' \<and> type_id a' = Some 7)"
    by (metis degree.select_convs(1))
  have n2: "\<forall>x\<in>set (degrees demo_db). lower (degree_name x) \<noteq> lower ''BSc''"
    by (simp add: demo_db_def)
  have ok2: "fault demo_env (CreateDegree ''BSc'') = None"
    by (simp add: demo_env_def)
  obtain d2 where w2: "write_extracted_data demo_env demo_db 1 (JDict ?kv) = Inr d2"
    by (simp add: writer_defs store_defs demo_defs lower_defs)
  from degree_resolution [OF g ne, of demo_db demo_env 1] n2 ok2 w2
  have c2: "degrees d2 = degrees demo_db @
              [\<lparr>degree_id = fresh_id (map degree_id (degrees demo_db)), degree_name = ''BSc''\<rparr>]
            \<and> (\<exists>a'. applicants d2 1 = Some a'
                  \<and> type_id a' = Some (fresh_id (map degree_id (degrees demo_db))))"
    by blast
  have f: "fresh_id (map degree_id (degrees demo_db)) = 1"
    by (simp add: fresh_id_def demo_db_def)
  have ko3: "fault ?env3 (CreateDegree ''BSc'') \<noteq> None"
    by (simp add: refuse_degrees_def)
  have a3: "applicants demo_db 1 = Some demo_applicant"
    by (simp add: demo_db_def)
  have nf3: "\<forall>vals. fault ?env3 (WriteApplicant 1 vals) = None"
    by (simp add: refuse_degrees_def)
  note t3 = degree_resolution [OF g ne, of demo_db ?env3 1, THEN conjunct2, THEN conjunct2,
      rule_format, OF conjI, OF n2 ko3]
  note u3 = t3 [THEN conjunct2, rule_format, OF conjI, OF a3 nf3]
  from u3 obtain d3 a3' where w3: "write_extracted_data ?env3 demo_db 1 (JDict ?kv) = Inr d3"
    and p3: "degrees d3 = degrees demo_db" "applicants d3 1 = Some a3'"
      "type_id a3' = type_id demo_applicant"
    and m3: "truthy (dict_get ?kv ''email'') \<longrightarrow>
               email_from a3' = Some (char_value ?env3 (dict_get ?kv ''email''))"
    by blast
  from m3 e have "email_from a3' = Some ''j@d.com''" by simp
  with w3 p3
  have c3: "\<exists>d' a'. write_extracted_data ?env3 demo_db 1 (JDict ?kv) = Inr d'
      \<and> degrees d' = degrees demo_db \<and> applicants d' 1 = Some a'
      \<and> type_id a' = type_id demo_applicant \<and> email_from a' = Some ''j@d.com''"
    by blast
  from c1 w1 have "\<exists>d' a'. write_extracted_data demo_env ?d7 1 (JDict ?kv) = Inr d'
      \<and> degrees d' = [\<lparr>degree_id = 7, degree_name = ''bsc''\<rparr>]
      \<and> applicants d' 1 = Some a' \<and> type_id a' = Some 7"
    by auto
  moreover from c2 w2 f have "\<exists>d' a'. write_extracted_data demo_env demo_db 1 (JDict ?kv) = Inr d'
      \<and> degrees d' = [\<lparr>degree_id = 1, degree_name = ''BSc''\<rparr>]
      \<and> applicants d' 1 = Some a' \<and> type_id a' = Some 1"
    by (auto simp: demo_db_def)
  moreover from c3 have "\<exists>d' a'. write_extracted_data ?env3 demo_db 1 (JDict ?kv) = Inr d'
      \<and> degrees d' = [] \<and> applicants d' 1 = Some a' \<and> type_id a' = None
      \<and> email_from a' = Some ''j@d.com''"
    by (auto simp: demo_db_def demo_applicant_def)
  ultimately show ?thesis by blast
qed

section \<open>The default skill level\<close>













section \<open>The level that a label names\<close>










section \<open>Malformed skills in the payload\<close>

text \<open>\<open>_process_skills\<close> does nothing for a value that is not a list, and its loop passes
  over an item that is not an object or that has no skill name.\<close>

lemma process_skills_not_list:
  "(\<forall>items. v \<noteq> JList items) \<Longrightarrow> process_skills env d aid v = Inr d"
  by (cases v) (simp_all add: process_skills_def)

lemma process_skill_not_dict:
  "(\<forall>kv. v \<noteq> JDict kv) \<Longrightarrow> process_skill env aid st v = Inr st"
  by (cases v) (simp_all add: process_skill_def)

lemma process_skill_no_name:
  "\<not> truthy (dict_get kv ''skill'') \<Longrightarrow> process_skill env aid st (JDict kv) = Inr st"
  by (simp add: process_skill_def)


lemma skills_step_sized_not_list:
  "v = JStr s \<or> v = JDict kv \<Longrightarrow> skills_step env d aid v = Inr d"
  by (auto simp: skills_step_def process_skills_def)

text \<open>
  Claim C10 says that a skills value that is not a list is passed over in silence and
  that the job ends in Done with the message of full success. That holds for a string or
  an object. For a number the job ends in Done with the message of partial success: the
  log call in front of \<open>_process_skills\<close> takes \<open>len(gemini_skills_list)\<close>, which raises
  \<open>TypeError\<close> inside the second savepoint.
\<close>

theorem skills_number_partial_status:
  "map_option gemini_extract_state (applicants (committed (extract_one skills_number_env demo_cursor 1)) 1)
     = Some Done
   \<and> map_option gemini_extract_status (applicants (committed (extract_one skills_number_env demo_cursor 1)) 1)
     = Some (Some (''Successfully saved simple data, but failed to process skills: '' @
                   ''object of type 'int' has no len()''))"
  by (simp add: job_defs parser_defs writer_defs store_defs demo_defs skills_number_env_def
      skills_number_response_def demo_cursor_def)

section \<open>The extraction job\<close>

lemma apply_error_vals:
  "apply_vals (error_vals m) a = a\<lparr>gemini_extract_state := Error, gemini_extract_status := Some m\<rparr>"
  by (simp add: apply_vals_def error_vals_def no_vals_def upd_field_def)

lemma apply_done_vals:
  "apply_vals (done_vals m) a = a\<lparr>gemini_extract_state := Done, gemini_extract_status := Some m\<rparr>"
  by (simp add: apply_vals_def done_vals_def no_vals_def upd_field_def)

lemma handle_failure_recorded:
  assumes "applicants (committed cur) aid = Some a"
    and "fault env (ErrorCursorWrite [aid] (error_vals (''Error: '' @ exn_str e))) = None"
  shows "handle_failure env cur aid e =
     \<lparr>committed = (committed cur)\<lparr>applicants := (applicants (committed cur))
          (aid \<mapsto> a\<lparr>gemini_extract_state := Error,
                      gemini_extract_status := Some (''Error: '' @ exn_str e)\<rparr>)\<rparr>,
      working = (committed cur)\<lparr>applicants := (applicants (committed cur))
          (aid \<mapsto> a\<lparr>gemini_extract_state := Error,
                      gemini_extract_status := Some (''Error: '' @ exn_str e)\<rparr>)\<rparr>\<rparr>"
  using assms
  by (simp add: handle_failure_def error_cursor_write_def rollback_def apply_error_vals)

lemma handle_failure_unrecorded:
  assumes "fault env (ErrorCursorWrite [aid] (error_vals (''Error: '' @ exn_str e))) \<noteq> None"
  shows "handle_failure env cur aid e = \<lparr>committed = committed cur, working = committed cur\<rparr>"
  using assms
  by (auto simp: handle_failure_def error_cursor_write_def rollback_def)

lemma parse_failure_is_invalid_response:
  "parse_gemini_response env r = Inl e \<Longrightarrow> e = invalid_response r"
  by (auto simp: parse_gemini_response_def decode_def split: option.splits)

lemma core_step_parse_failure:
  assumes "applicants d aid = Some a'"
    and "co = (case company_id a' of Some c \<Rightarrow> c | None \<Rightarrow> env_company env)"
    and "is_set (gemini_api_key co)"
    and "message_main_attachment_id a' = Some att" and "is_set (datas att)"
    and "fault env (WriteApplicant aid processing_vals) = None"
    and "fault env (WriteApplicant aid parsing_vals) = None"
    and "call_gemini env (text_of (gemini_api_key co))
           (if is_set (gemini_model co) then text_of (gemini_model co) else ''gemini-1.5-flash-latest'')
           (mimetype att) (text_of (datas att)) = Inr r"
    and "\<forall>v. parse_gemini_response env r \<noteq> Inr v"
  shows "core_step env d aid = Inl (invalid_response r)"
proof -
  from assms(9) obtain e where e: "parse_gemini_response env r = Inl e"
    by (cases "parse_gemini_response env r") auto
  then have e': "parse_gemini_response env r = Inl (invalid_response r)"
    using parse_failure_is_invalid_response by blast
  have m: "(if is_set (gemini_model co) then text_of (gemini_model co) else ''gemini-1.5-flash-latest'') \<noteq> []"
    by (auto simp: is_set_def text_of_def split: option.splits)
  have w1: "orm_write_applicant env d aid processing_vals =
      Inr (d\<lparr>applicants := (applicants d)(aid \<mapsto> apply_vals processing_vals a')\<rparr>)"
    using assms(1,6) by (simp add: orm_write_applicant_def)
  have cw: "call_and_write env d aid (text_of (gemini_api_key co))
      (if is_set (gemini_model co) then text_of (gemini_model co) else ''gemini-1.5-flash-latest'') att
      = Inl (invalid_response r)"
    using w1 assms(7,8) e'
    by (simp add: call_and_write_def orm_write_applicant_def)
  show ?thesis
    using assms(1,3,4,5) m cw
    by (simp add: core_step_def Let_def assms(2) [symmetric])
qed


text \<open>
  Claim C2, as the code has it. Whenever the core step fails for a record, with any
  exception \<open>e\<close> (configuration, provider call, parse, field write), the transaction is
  rolled back, so that every write of that step is undone, and the error state is
  written through a cursor of its own. When that write goes through, the committed record
  is the one committed before with the state Error and the status \<open>Error: \<close> followed by
  the reason, all else in the store being as committed before. When that write is refused
  too, the failure is only logged, and the store is the one committed before. When the
  failure is a response that does not parse, the reason carries the raw text of the
  response.
\<close>

theorem core_failure_recorded:
  assumes "applicants (committed cur) aid = Some a"
  shows
   "(\<forall>e. core_step env (working cur) aid = Inl e
        \<and> fault env (ErrorCursorWrite [aid] (error_vals (''Error: '' @ exn_str e))) = None \<longrightarrow>
      extract_one env cur aid =
        \<lparr>committed = (committed cur)\<lparr>applicants := (applicants (committed cur))
             (aid \<mapsto> a\<lparr>gemini_extract_state := Error,
                         gemini_extract_status := Some (''Error: '' @ exn_str e)\<rparr>)\<rparr>,
         working = (committed cur)\<lparr>applicants := (applicants (committed cur))
             (aid \<mapsto> a\<lparr>gemini_extract_state := Error,
                         gemini_extract_status := Some (''Error: '' @ exn_str e)\<rparr>)\<rparr>\<rparr>)
    \<and> (\<forall>e. core_step env (working cur) aid = Inl e
        \<and> fault env (ErrorCursorWrite [aid] (error_vals (''Error: '' @ exn_str e))) \<noteq> None \<longrightarrow>
      extract_one env cur aid = \<lparr>committed = committed cur, working = committed cur\<rparr>)
    \<and> (\<forall>a' co att r. applicants (working cur) aid = Some a'
        \<and> co = (case company_id a' of Some c \<Rightarrow> c | None \<Rightarrow> env_company env)
        \<and> is_set (gemini_api_key co)
        \<and> message_main_attachment_id a' = Some att \<and> is_set (datas att)
        \<and> fault env (WriteApplicant aid processing_vals) = None
        \<and> fault env (WriteApplicant aid parsing_vals) = None
        \<and> call_gemini env (text_of (gemini_api_key co))
             (if is_set (gemini_model co) then text_of (gemini_model co)
              else ''gemini-1.5-flash-latest'')
             (mimetype att) (text_of (datas att)) = Inr r
        \<and> (\<forall>v. parse_gemini_response env r \<noteq> Inr v) \<longrightarrow>
      core_step env (working cur) aid = Inl (invalid_response r)
      \<and> exn_str (invalid_response r) =
          ''Gemini returned an invalid response that could not be parsed. Raw text: '' @ r)"
proof (intro conjI allI impI)
  fix e
  assume "core_step env (working cur) aid = Inl e
        \<and> fault env (ErrorCursorWrite [aid] (error_vals (''Error: '' @ exn_str e))) = None"
  then show "extract_one env cur aid =
        \<lparr>committed = (committed cur)\<lparr>applicants := (applicants (committed cur))
             (aid \<mapsto> a\<lparr>gemini_extract_state := Error,
                         gemini_extract_status := Some (''Error: '' @ exn_str e)\<rparr>)\<rparr>,
         working = (committed cur)\<lparr>applicants := (applicants (committed cur))
             (aid \<mapsto> a\<lparr>gemini_extract_state := Error,
                         gemini_extract_status := Some (''Error: '' @ exn_str e)\<rparr>)\<rparr>\<rparr>"
    using handle_failure_recorded [OF assms, of env e] by (simp add: extract_one_def)
next
  fix e
  assume "core_step env (working cur) aid = Inl e
        \<and> fault env (ErrorCursorWrite [aid] (error_vals (''Error: '' @ exn_str e))) \<noteq> None"
  then show "extract_one env cur aid = \<lparr>committed = committed cur, working = committed cur\<rparr>"
    using handle_failure_unrecorded [of env aid e cur] by (simp add: extract_one_def)
next
  fix a' co att r
  assume h: "applicants (working cur) aid = Some a'
        \<and> co = (case company_id a' of Some c \<Rightarrow> c | None \<Rightarrow> env_company env)
        \<and> is_set (gemini_api_key co)
        \<and> message_main_attachment_id a' = Some att \<and> is_set (datas att)
        \<and> fault env (WriteApplicant aid processing_vals) = None
        \<and> fault env (WriteApplicant aid parsing_vals) = None
        \<and> call_gemini env (text_of (gemini_api_key co))
             (if is_set (gemini_model co) then text_of (gemini_model co)
              else ''gemini-1.5-flash-latest'')
             (mimetype att) (text_of (datas att)) = Inr r
        \<and> (\<forall>v. parse_gemini_response env r \<noteq> Inr v)"
  then show "core_step env (working cur) aid = Inl (invalid_response r)"
    by (intro core_step_parse_failure [of "working cur" aid a' co env att r]) blast+
  show "exn_str (invalid_response r) =
          ''Gemini returned an invalid response that could not be parsed. Raw text: '' @ r"
    by (simp add: invalid_response_def)
qed


theorem core_failure_recorded_witness:
  "core_step unterminated_env (working demo_cursor) 1 = Inl (invalid_response unterminated_response)
   \<and> extract_one unterminated_env demo_cursor 1 =
       \<lparr>committed = demo_db\<lparr>applicants := (applicants demo_db)
            (1 \<mapsto> demo_applicant\<lparr>gemini_extract_state := Error,
                  gemini_extract_status := Some (''Error: Gemini returned an invalid response '' @
                    ''that could not be parsed. Raw text: '' @ unterminated_response)\<rparr>)\<rparr>,
        working = demo_db\<lparr>applicants := (applicants demo_db)
            (1 \<mapsto> demo_applicant\<lparr>gemini_extract_state := Error,
                  gemini_extract_status := Some (''Error: Gemini returned an invalid response '' @
                    ''that could not be parsed. Raw text: '' @ unterminated_response)\<rparr>)\<rparr>\<rparr>
   \<and> extract_one (unterminated_env\<lparr>fault := refuse_error_write\<rparr>) demo_cursor 1 = demo_cursor"
proof -
  let ?env' = "unterminated_env\<lparr>fault := refuse_error_write\<rparr>"
  have a: "applicants (committed demo_cursor) 1 = Some demo_applicant"
    by (simp add: demo_cursor_def demo_db_def)
  have np: "parse_gemini_response env0 unterminated_response = Inl (invalid_response unterminated_response)"
    for env0
    by (simp add: parser_defs unterminated_response_def)
  have h: "applicants (working demo_cursor) 1 = Some demo_applicant
        \<and> demo_company = (case company_id demo_applicant of Some c \<Rightarrow> c | None \<Rightarrow> env_company unterminated_env)
        \<and> is_set (gemini_api_key demo_company)
        \<and> message_main_attachment_id demo_applicant = Some demo_attachment
        \<and> is_set (datas demo_attachment)
        \<and> fault unterminated_env (WriteApplicant 1 processing_vals) = None
        \<and> fault unterminated_env (WriteApplicant 1 parsing_vals) = None
        \<and> call_gemini unterminated_env (text_of (gemini_api_key demo_company))
             (if is_set (gemini_model demo_company) then text_of (gemini_model demo_company)
              else ''gemini-1.5-flash-latest'')
             (mimetype demo_attachment) (text_of (datas demo_attachment)) = Inr unterminated_response
        \<and> (\<forall>v. parse_gemini_response unterminated_env unterminated_response \<noteq> Inr v)"
    by (simp add: np demo_defs demo_cursor_def unterminated_env_def is_set_def)
  note t = core_failure_recorded [OF a, of unterminated_env]
  from t [THEN conjunct2, THEN conjunct2, rule_format, OF h]
  have c: "core_step unterminated_env (working demo_cursor) 1 = Inl (invalid_response unterminated_response)"
    and m: "exn_str (invalid_response unterminated_response) =
          ''Gemini returned an invalid response that could not be parsed. Raw text: '' @ unterminated_response"
    by blast+
  have f: "fault unterminated_env (ErrorCursorWrite [1]
             (error_vals (''Error: '' @ exn_str (invalid_response unterminated_response)))) = None"
    by (simp add: unterminated_env_def demo_env_def)
  from t [THEN conjunct1, rule_format, OF conjI, OF c f]
  have r1: "extract_one unterminated_env demo_cursor 1 =
       \<lparr>committed = demo_db\<lparr>applicants := (applicants demo_db)
            (1 \<mapsto> demo_applicant\<lparr>gemini_extract_state := Error,
                  gemini_extract_status := Some (''Error: Gemini returned an invalid response '' @
                    ''that could not be parsed. Raw text: '' @ unterminated_response)\<rparr>)\<rparr>,
        working = demo_db\<lparr>applicants := (applicants demo_db)
            (1 \<mapsto> demo_applicant\<lparr>gemini_extract_state := Error,
                  gemini_extract_status := Some (''Error: Gemini returned an invalid response '' @
                    ''that could not be parsed. Raw text: '' @ unterminated_response)\<rparr>)\<rparr>\<rparr>"
    by (simp add: m demo_cursor_def)
  have h': "applicants (working demo_cursor) 1 = Some demo_applicant
        \<and> demo_company = (case company_id demo_applicant of Some c \<Rightarrow> c | None \<Rightarrow> env_company ?env')
        \<and> is_set (gemini_api_key demo_company)
        \<and> message_main_attachment_id demo_applicant = Some demo_attachment
        \<and> is_set (datas demo_attachment)
        \<and> fault ?env' (WriteApplicant 1 processing_vals) = None
        \<and> fault ?env' (WriteApplicant 1 parsing_vals) = None
        \<and> call_gemini ?env' (text_of (gemini_api_key demo_company))
             (if is_set (gemini_model demo_company) then text_of (gemini_model demo_company)
              else ''gemini-1.5-flash-latest'')
             (mimetype demo_attachment) (text_of (datas demo_attachment)) = Inr unterminated_response
        \<and> (\<forall>v. parse_gemini_response ?env' unterminated_response \<noteq> Inr v)"
    by (simp add: np demo_defs demo_cursor_def unterminated_env_def is_set_def refuse_error_write_def)
  note t' = core_failure_recorded [OF a, of ?env']
  from t' [THEN conjunct2, THEN conjunct2, rule_format, OF h']
  have c': "core_step ?env' (working demo_cursor) 1 = Inl (invalid_response unterminated_response)"
    by blast
  have f': "fault ?env' (ErrorCursorWrite [1]
             (error_vals (''Error: '' @ exn_str (invalid_response unterminated_response)))) \<noteq> None"
    by (simp add: refuse_error_write_def)
  from t' [THEN conjunct2, THEN conjunct1, rule_format, OF conjI, OF c' f']
  have r2: "extract_one ?env' demo_cursor 1 = demo_cursor"
    by (simp add: demo_cursor_def)
  from c r1 r2 show ?thesis by blast
qed

text \<open>
  The claim as it was stated, that the state becomes Error whenever the core step fails,
  fails where the write of the error state is refused: the provider call fails, the
  record was Pending, and it stays Pending.
\<close>

theorem error_write_refused_stays_pending:
  "isl (core_step (demo_env\<lparr>fault := refuse_error_write\<rparr>) (working demo_cursor) 1)
   \<and> map_option gemini_extract_state
        (applicants (committed (extract_one (demo_env\<lparr>fault := refuse_error_write\<rparr>) demo_cursor 1)) 1)
      = Some Pending"
  by (simp add: job_defs store_defs demo_defs demo_cursor_def refuse_error_write_def)

lemma degree_entry_applicants:
  "applicants (fst (degree_entry env d dg vals)) = applicants d"
  by (auto simp: degree_entry_def create_degree_def Let_def split: option.splits sum.splits)







lemma two_skills_env_simps:
  "call_gemini two_skills_env = (\<lambda>k m t d. Inr two_skills_response)"
  "fault two_skills_env = (\<lambda>c. None)"
  "env_company two_skills_env = demo_company"
  "skills_module_installed two_skills_env = True"
  by (simp_all add: two_skills_env_def demo_env_def)


text \<open>In that run the skills step does write before it fails: its first item alone
  leaves a link.\<close>

lemma first_skill_alone_links:
  "map_sum id applicant_skills
     (skills_step two_skills_env demo_db 1 (JList [JDict [(''skill'', JStr ''Python'')]])) =
   Inr [\<lparr>as_id = 1, applicant_id = 1, skill_id = 1, skill_level_id = 1, as_skill_type_id = 1\<rparr>]"
  by (simp add: skills_step_def skills_defs store_defs lower_defs
      demo_db_def demo_applicant_def demo_company_def demo_attachment_def two_skills_env_simps)

section \<open>The links of an applicant to skills\<close>

subsection \<open>What each step of the loop leaves unchanged\<close>

lemma find_or_create_type_frame:
  assumes "find_or_create_type env st tn = Inr (st', t)"
  shows "skills (run_db st') = skills (run_db st)"
    and "applicant_skills (run_db st') = applicant_skills (run_db st)"
    and "applicants (run_db st') = applicants (run_db st)"
    and "skill_cache st' = skill_cache st"
  using assms
  by (auto simp: find_or_create_type_def create_skill_type_def Let_def
      split: json.splits option.splits sum.splits)

lemma create_skill_level_frame:
  assumes "create_skill_level env d nm p = Inr (d', l)"
  shows "skills d' = skills d" and "applicant_skills d' = applicant_skills d"
    and "applicants d' = applicants d"
  using assms by (auto simp: create_skill_level_def Let_def split: option.splits)

lemma lookup_level_frame:
  assumes "lookup_level env st lv = Inr (st', r)"
  shows "skills (run_db st') = skills (run_db st)"
    and "applicant_skills (run_db st') = applicant_skills (run_db st)"
    and "applicants (run_db st') = applicants (run_db st)"
    and "skill_cache st' = skill_cache st"
proof -
  have "skills (run_db st') = skills (run_db st)
      \<and> applicant_skills (run_db st') = applicant_skills (run_db st)
      \<and> applicants (run_db st') = applicants (run_db st)
      \<and> skill_cache st' = skill_cache st"
  proof (cases "truthy lv")
    case False
    with assms show ?thesis by (simp add: lookup_level_def)
  next
    case True
    with assms obtain s where s: "lv = JStr s"
      by (cases lv) (simp_all add: lookup_level_def)
    show ?thesis
    proof (cases "level_cache st (lower s)")
      case (Some l)
      with assms True s show ?thesis by (simp add: lookup_level_def)
    next
      case None
      with assms True s show ?thesis
        by (auto simp: lookup_level_def Let_def
            dest: create_skill_level_frame
            split: option.splits sum.splits prod.splits)
    qed
  qed
  then show "skills (run_db st') = skills (run_db st)"
    and "applicant_skills (run_db st') = applicant_skills (run_db st)"
    and "applicants (run_db st') = applicants (run_db st)"
    and "skill_cache st' = skill_cache st"
    by simp_all
qed

lemma default_level_frame:
  assumes "get_or_create_default_skill_level env d = Inr (d', l)"
  shows "skills d' = skills d" and "applicant_skills d' = applicant_skills d"
    and "applicants d' = applicants d"
  using assms
  by (auto simp: get_or_create_default_skill_level_def
      dest: create_skill_level_frame split: option.splits sum.splits)

lemma use_default_level_frame:
  assumes "use_default_level env st = Inr (st', l)"
  shows "skills (run_db st') = skills (run_db st)"
    and "applicant_skills (run_db st') = applicant_skills (run_db st)"
    and "applicants (run_db st') = applicants (run_db st)"
    and "skill_cache st' = skill_cache st"
  using assms
  by (auto simp: use_default_level_def dest: default_level_frame
      split: option.splits sum.splits)

lemma resolve_skill_level_frame:
  assumes "resolve_skill_level env st lv = Inr (st', l)"
  shows "skills (run_db st') = skills (run_db st)"
    and "applicant_skills (run_db st') = applicant_skills (run_db st)"
    and "applicants (run_db st') = applicants (run_db st)"
    and "skill_cache st' = skill_cache st"
proof -
  from assms obtain st1 r where l1: "lookup_level env st lv = Inr (st1, r)"
    by (auto simp: resolve_skill_level_def split: sum.splits)
  note f1 = lookup_level_frame [OF l1]
  have "skills (run_db st') = skills (run_db st)
      \<and> applicant_skills (run_db st') = applicant_skills (run_db st)
      \<and> applicants (run_db st') = applicants (run_db st)
      \<and> skill_cache st' = skill_cache st"
  proof (cases r)
    case None
    with assms l1 have "use_default_level env st1 = Inr (st', l)"
      by (simp add: resolve_skill_level_def)
    from use_default_level_frame [OF this] f1 show ?thesis by simp
  next
    case (Some l')
    with assms l1 have "st' = st1" by (simp add: resolve_skill_level_def)
    with f1 show ?thesis by simp
  qed
  then show "skills (run_db st') = skills (run_db st)"
    and "applicant_skills (run_db st') = applicant_skills (run_db st)"
    and "applicants (run_db st') = applicants (run_db st)"
    and "skill_cache st' = skill_cache st"
    by simp_all
qed

lemma associate_level_frame:
  assumes "associate_level env st tid lid = Inr st'"
  shows "skills (run_db st') = skills (run_db st)"
    and "applicant_skills (run_db st') = applicant_skills (run_db st)"
    and "applicants (run_db st') = applicants (run_db st)"
    and "skill_cache st' = skill_cache st"
  using assms
  by (auto simp: associate_level_def add_level_to_type_def
      split: if_splits option.splits sum.splits)

subsection \<open>The skill of a name\<close>

lemma find_snoc:
  "find P (xs @ [y]) = (case find P xs of Some x \<Rightarrow> Some x | None \<Rightarrow> if P y then Some y else None)"
  by (induction xs) auto

lemma find_map_same:
  assumes "\<And>x. P (f x) = P x"
  shows "find P (map f xs) = map_option f (find P xs)"
  using assms by (induction xs) auto

lemma first_skill_created:
  assumes "create_skill env d s tid = Inr (d', k)"
  shows "first_skill d' key =
     (case first_skill d key of Some i \<Rightarrow> Some i | None \<Rightarrow> if lower s = key then Some k else None)"
    and "applicant_skills d' = applicant_skills d" and "applicants d' = applicants d"
  using assms
  by (auto simp: create_skill_def first_skill_def find_snoc Let_def split: option.splits)

lemma first_skill_type_written:
  assumes "write_skill_type env d sid tid = Inr d'"
  shows "first_skill d' key = first_skill d key"
    and "applicant_skills d' = applicant_skills d" and "applicants d' = applicants d"
proof -
  let ?f = "\<lambda>s. if sk_id s = sid then s\<lparr>skill_type_id := tid\<rparr> else s"
  from assms have d': "d' = d\<lparr>skills := map ?f (skills d)\<rparr>"
    by (auto simp: write_skill_type_def split: option.splits)
  have "map_option sk_id (find (\<lambda>x. lower (sk_name x) = key) (map ?f xs)) =
        map_option sk_id (find (\<lambda>x. lower (sk_name x) = key) xs)" for xs
    by (induction xs) auto
  then show "first_skill d' key = first_skill d key"
    by (simp add: first_skill_def d')
  show "applicant_skills d' = applicant_skills d" "applicants d' = applicants d"
    by (simp_all add: d')
qed

lemma search_skill_first:
  "map_option sk_id (search_skill d s) = first_skill d (lower s)"
  by (simp add: search_skill_def first_skill_def ilike_eq_def)

lemma find_or_create_skill_props:
  assumes "find_or_create_skill env st sn tid = Inr (st', k)" and "skill_cache_ok st"
  shows "skill_cache_ok st'"
    and "\<exists>s. sn = JStr s \<and> first_skill (run_db st') (lower s) = Some k"
    and "\<And>key i. first_skill (run_db st) key = Some i \<Longrightarrow> first_skill (run_db st') key = Some i"
    and "applicant_skills (run_db st') = applicant_skills (run_db st)"
    and "applicants (run_db st') = applicants (run_db st)"
proof -
  from assms(1) obtain s where s: "sn = JStr s"
    by (cases sn) (simp_all add: find_or_create_skill_def)
  have "skill_cache_ok st' \<and> first_skill (run_db st') (lower s) = Some k
      \<and> (\<forall>key i. first_skill (run_db st) key = Some i \<longrightarrow> first_skill (run_db st') key = Some i)
      \<and> applicant_skills (run_db st') = applicant_skills (run_db st)
      \<and> applicants (run_db st') = applicants (run_db st)"
  proof (cases "skill_cache st (lower s)")
    case (Some c)
    with assms(1) s have "st' = st" "k = c" by (simp_all add: find_or_create_skill_def)
    with Some assms(2) show ?thesis by (simp add: skill_cache_ok_def)
  next
    case miss: None
    show ?thesis
    proof (cases "search_skill (run_db st) s")
      case None
      then have nf: "first_skill (run_db st) (lower s) = None"
        using search_skill_first [of "run_db st" s] by simp
      from assms(1) s miss None obtain d' where
        c: "create_skill env (run_db st) s tid = Inr (d', k)"
        and st': "st' = st\<lparr>run_db := d', skill_cache := (skill_cache st)(lower s \<mapsto> k)\<rparr>"
        by (auto simp: find_or_create_skill_def split: sum.splits)
      note fc = first_skill_created [OF c]
      have mono: "first_skill d' key = Some i" if "first_skill (run_db st) key = Some i" for key i
        using that by (simp add: fc(1))
      have here: "first_skill d' (lower s) = Some k"
        using nf by (simp add: fc(1))
      have "skill_cache_ok st'"
        unfolding skill_cache_ok_def
      proof (intro allI impI)
        fix key i
        assume h: "skill_cache st' key = Some i"
        show "first_skill (run_db st') key = Some i"
        proof (cases "key = lower s")
          case True
          with h st' here show ?thesis by simp
        next
          case False
          with h st' have "skill_cache st key = Some i" by simp
          with assms(2) have "first_skill (run_db st) key = Some i"
            by (simp add: skill_cache_ok_def)
          with mono st' show ?thesis by simp
        qed
      qed
      with here mono fc(2,3) st' show ?thesis by simp
    next
      case (Some sk)
      then have fs: "first_skill (run_db st) (lower s) = Some (sk_id sk)"
        using search_skill_first [of "run_db st" s] by simp
      from assms(1) s miss Some have k: "k = sk_id sk"
        by (auto simp: find_or_create_skill_def split: if_splits sum.splits)
      have st': "skill_cache st' = (skill_cache st)(lower s \<mapsto> k)"
        and d': "run_db st' = run_db st
                 \<or> write_skill_type env (run_db st) (sk_id sk) tid = Inr (run_db st')"
        using assms(1) s miss Some
        by (auto simp: find_or_create_skill_def split: if_splits sum.splits)
      have same: "first_skill (run_db st') key = first_skill (run_db st) key" for key
        using d' first_skill_type_written(1) by auto
      have fr: "applicant_skills (run_db st') = applicant_skills (run_db st)"
        "applicants (run_db st') = applicants (run_db st)"
        using d' first_skill_type_written(2,3) by auto
      have "skill_cache_ok st'"
        unfolding skill_cache_ok_def
      proof (intro allI impI)
        fix key i
        assume h: "skill_cache st' key = Some i"
        show "first_skill (run_db st') key = Some i"
        proof (cases "key = lower s")
          case True
          with h st' fs k same show ?thesis by simp
        next
          case False
          with h st' have "skill_cache st key = Some i" by simp
          with assms(2) have "first_skill (run_db st) key = Some i"
            by (simp add: skill_cache_ok_def)
          with same st' show ?thesis by simp
        qed
      qed
      with same fs k fr st' show ?thesis by simp
    qed
  qed
  with s show "skill_cache_ok st'"
    and "\<exists>s. sn = JStr s \<and> first_skill (run_db st') (lower s) = Some k"
    and "\<And>key i. first_skill (run_db st) key = Some i \<Longrightarrow> first_skill (run_db st') key = Some i"
    and "applicant_skills (run_db st') = applicant_skills (run_db st)"
    and "applicants (run_db st') = applicants (run_db st)"
    by simp_all
qed

subsection \<open>Links\<close>

lemma search_link_None_iff:
  "search_link d a i = None \<longleftrightarrow>
     (a, i) \<notin> set (map (\<lambda>r. (applicant_id r, skill_id r)) (applicant_skills d))"
  by (auto simp: search_link_def find_None_iff)

lemma linked_iff:
  "linked d aid k \<longleftrightarrow> (\<exists>i. first_skill d k = Some i \<and> search_link d aid i \<noteq> None)"
  by (simp add: linked_def split: option.splits)



lemma link_skill_props:
  assumes "link_skill env aid st sid lid tid = Inr st'"
  shows "skills (run_db st') = skills (run_db st)"
    and "applicants (run_db st') = applicants (run_db st)"
    and "skill_cache st' = skill_cache st"
    and "search_link (run_db st') aid sid \<noteq> None"
    and "\<And>a i. search_link (run_db st) a i \<noteq> None \<Longrightarrow> search_link (run_db st') a i \<noteq> None"
    and "links_unique (run_db st) \<Longrightarrow> links_unique (run_db st')"
    and "search_link (run_db st) aid sid \<noteq> None \<Longrightarrow>
           applicant_skills (run_db st') = applicant_skills (run_db st)"
proof -
  have "skills (run_db st') = skills (run_db st)
      \<and> applicants (run_db st') = applicants (run_db st)
      \<and> skill_cache st' = skill_cache st
      \<and> search_link (run_db st') aid sid \<noteq> None
      \<and> (\<forall>a i. search_link (run_db st) a i \<noteq> None \<longrightarrow> search_link (run_db st') a i \<noteq> None)
      \<and> (links_unique (run_db st) \<longrightarrow> links_unique (run_db st'))
      \<and> (search_link (run_db st) aid sid \<noteq> None \<longrightarrow>
           applicant_skills (run_db st') = applicant_skills (run_db st))"
  proof (cases "search_link (run_db st) aid sid")
    case (Some r)
    with assms have "st' = st" by (simp add: link_skill_def)
    with Some show ?thesis by simp
  next
    case None
    with assms obtain d' where c: "create_link env (run_db st) aid sid lid tid = Inr d'"
      and st': "st' = st\<lparr>run_db := d'\<rparr>"
      by (auto simp: link_skill_def split: sum.splits)
    from c obtain r where d': "d' = (run_db st)\<lparr>applicant_skills := applicant_skills (run_db st) @ [r]\<rparr>"
      and r: "applicant_id r = aid" "skill_id r = sid"
      by (auto simp: create_link_def Let_def split: option.splits)
    have new: "(aid, sid) \<notin> set (map (\<lambda>r. (applicant_id r, skill_id r)) (applicant_skills (run_db st)))"
      using None by (simp add: search_link_None_iff)
    have "links_unique (run_db st) \<longrightarrow> links_unique d'"
      using new r by (simp add: links_unique_def d')
    moreover have "search_link d' aid sid \<noteq> None"
      using r by (simp add: search_link_None_iff d')
    moreover have "\<forall>a i. search_link (run_db st) a i \<noteq> None \<longrightarrow> search_link d' a i \<noteq> None"
      by (auto simp: search_link_None_iff d')
    ultimately show ?thesis using None st' d' by simp
  qed
  then show "skills (run_db st') = skills (run_db st)"
    and "applicants (run_db st') = applicants (run_db st)"
    and "skill_cache st' = skill_cache st"
    and "search_link (run_db st') aid sid \<noteq> None"
    and "\<And>a i. search_link (run_db st) a i \<noteq> None \<Longrightarrow> search_link (run_db st') a i \<noteq> None"
    and "links_unique (run_db st) \<Longrightarrow> links_unique (run_db st')"
    and "search_link (run_db st) aid sid \<noteq> None \<Longrightarrow>
           applicant_skills (run_db st') = applicant_skills (run_db st)"
    by simp_all
qed

subsection \<open>One item of the list\<close>

lemma first_skill_cong: "skills d' = skills d \<Longrightarrow> first_skill d' k = first_skill d k"
  by (simp add: first_skill_def)

lemma search_link_cong:
  "applicant_skills d' = applicant_skills d \<Longrightarrow> search_link d' a i = search_link d a i"
  by (simp add: search_link_def)

lemma skill_cache_ok_cong:
  assumes "skills (run_db st') = skills (run_db st)" and "skill_cache st' = skill_cache st"
  shows "skill_cache_ok st' = skill_cache_ok st"
  using assms by (simp add: skill_cache_ok_def first_skill_def)

lemma process_skill_step:
  assumes "process_skill env aid st obj = Inr st'" and "skill_cache_ok st"
  shows "skill_cache_ok st'"
    and "\<And>k. linked (run_db st) aid k \<Longrightarrow> linked (run_db st') aid k"
    and "links_unique (run_db st) \<Longrightarrow> links_unique (run_db st')"
    and "applicants (run_db st') = applicants (run_db st)"
    and "\<And>kv. obj = JDict kv \<Longrightarrow> truthy (dict_get kv ''skill'') \<Longrightarrow>
           \<exists>s. dict_get kv ''skill'' = JStr s \<and> linked (run_db st') aid (lower s)"
    and "(\<And>kv. obj = JDict kv \<Longrightarrow> truthy (dict_get kv ''skill'') \<Longrightarrow>
           \<exists>s. dict_get kv ''skill'' = JStr s \<and> linked (run_db st) aid (lower s)) \<Longrightarrow>
         applicant_skills (run_db st') = applicant_skills (run_db st)"
proof -
  let ?goal = "skill_cache_ok st'
      \<and> (\<forall>k. linked (run_db st) aid k \<longrightarrow> linked (run_db st') aid k)
      \<and> (links_unique (run_db st) \<longrightarrow> links_unique (run_db st'))
      \<and> applicants (run_db st') = applicants (run_db st)
      \<and> (\<forall>kv. obj = JDict kv \<and> truthy (dict_get kv ''skill'') \<longrightarrow>
           (\<exists>s. dict_get kv ''skill'' = JStr s \<and> linked (run_db st') aid (lower s)))
      \<and> ((\<forall>kv. obj = JDict kv \<and> truthy (dict_get kv ''skill'') \<longrightarrow>
           (\<exists>s. dict_get kv ''skill'' = JStr s \<and> linked (run_db st) aid (lower s))) \<longrightarrow>
         applicant_skills (run_db st') = applicant_skills (run_db st))"
  have ?goal
  proof (cases "\<exists>kv. obj = JDict kv \<and> truthy (dict_get kv ''skill'')")
    case False
    have "process_skill env aid st obj = Inr st"
    proof (cases "\<exists>kv. obj = JDict kv")
      case True
      then obtain kv where kv: "obj = JDict kv" ..
      with False have "\<not> truthy (dict_get kv ''skill'')" by simp
      with kv show ?thesis by (simp add: process_skill_no_name)
    next
      case False
      then show ?thesis by (simp add: process_skill_not_dict)
    qed
    with assms(1) have st': "st' = st" by simp
    have "\<forall>k. linked (run_db st) aid k \<longrightarrow> linked (run_db st') aid k"
      "links_unique (run_db st) \<longrightarrow> links_unique (run_db st')"
      "applicants (run_db st') = applicants (run_db st)"
      "applicant_skills (run_db st') = applicant_skills (run_db st)"
      by (simp_all add: st')
    moreover have "skill_cache_ok st'" using assms(2) st' by simp
    moreover have "\<forall>kv. obj = JDict kv \<and> truthy (dict_get kv ''skill'') \<longrightarrow>
           (\<exists>s. dict_get kv ''skill'' = JStr s \<and> linked (run_db st') aid (lower s))"
      using False by blast
    ultimately show ?thesis by simp
  next
    case True
    then obtain kv where obj: "obj = JDict kv" and tr: "truthy (dict_get kv ''skill'')" by blast
    define tn where "tn = (if truthy (dict_get kv ''type'') then dict_get kv ''type'' else JStr ''General'')"
    have unf: "process_skill env aid st obj =
        (case find_or_create_type env st tn of
           Inl e \<Rightarrow> Inl e
         | Inr (st1, tid) \<Rightarrow>
             (case resolve_skill_level env st1 (dict_get kv ''level'') of
                Inl e \<Rightarrow> Inl e
              | Inr (st2, lid) \<Rightarrow>
                  (case associate_level env st2 tid lid of
                     Inl e \<Rightarrow> Inl e
                   | Inr st3 \<Rightarrow>
                       (case find_or_create_skill env st3 (dict_get kv ''skill'') tid of
                          Inl e \<Rightarrow> Inl e
                        | Inr (st4, sid) \<Rightarrow> link_skill env aid st4 sid lid tid))))"
      using obj tr by (simp add: process_skill_def tn_def)
    obtain st1 t where s1: "find_or_create_type env st tn = Inr (st1, t)"
    proof (cases "find_or_create_type env st tn")
      case (Inl e)
      with unf assms(1) show ?thesis by simp
    next
      case (Inr p)
      then show ?thesis using that by (cases p) simp
    qed
    obtain st2 l where s2: "resolve_skill_level env st1 (dict_get kv ''level'') = Inr (st2, l)"
    proof (cases "resolve_skill_level env st1 (dict_get kv ''level'')")
      case (Inl e)
      with unf assms(1) s1 show ?thesis by simp
    next
      case (Inr p)
      then show ?thesis using that by (cases p) simp
    qed
    obtain st3 where s3: "associate_level env st2 t l = Inr st3"
    proof (cases "associate_level env st2 t l")
      case (Inl e)
      with unf assms(1) s1 s2 show ?thesis by simp
    next
      case (Inr p)
      then show ?thesis using that by simp
    qed
    obtain st4 k where s4: "find_or_create_skill env st3 (dict_get kv ''skill'') t = Inr (st4, k)"
    proof (cases "find_or_create_skill env st3 (dict_get kv ''skill'') t")
      case (Inl e)
      with unf assms(1) s1 s2 s3 show ?thesis by simp
    next
      case (Inr p)
      then show ?thesis using that by (cases p) simp
    qed
    have s5: "link_skill env aid st4 k l t = Inr st'"
      using unf assms(1) s1 s2 s3 s4 by simp
    note f1 = find_or_create_type_frame [OF s1]
    note f2 = resolve_skill_level_frame [OF s2]
    note f3 = associate_level_frame [OF s3]
    have sk3: "skills (run_db st3) = skills (run_db st)"
      and ln3: "applicant_skills (run_db st3) = applicant_skills (run_db st)"
      and ap3: "applicants (run_db st3) = applicants (run_db st)"
      and ca3: "skill_cache st3 = skill_cache st"
      using f1 f2 f3 by simp_all
    have ok3: "skill_cache_ok st3"
      using assms(2) skill_cache_ok_cong [OF sk3 ca3] by simp
    note f4 = find_or_create_skill_props [OF s4 ok3]
    note f5 = link_skill_props [OF s5]
    from f4(2) obtain s where s: "dict_get kv ''skill'' = JStr s"
      and fk: "first_skill (run_db st4) (lower s) = Some k" by blast
    have fs_mono: "first_skill (run_db st') key = Some i" if "first_skill (run_db st) key = Some i" for key i
    proof -
      from that have "first_skill (run_db st3) key = Some i"
        by (simp add: first_skill_cong [OF sk3])
      then have "first_skill (run_db st4) key = Some i" by (rule f4(3))
      then show ?thesis by (simp add: first_skill_cong [OF f5(1)])
    qed
    have ln_mono: "search_link (run_db st') a i \<noteq> None" if "search_link (run_db st) a i \<noteq> None" for a i
    proof -
      from that have "search_link (run_db st4) a i \<noteq> None"
        by (simp add: search_link_cong [OF f4(4)] search_link_cong [OF ln3])
      then show ?thesis by (rule f5(5))
    qed
    have c1: "skill_cache_ok st'"
      using f4(1) skill_cache_ok_cong [OF f5(1) f5(3)] by simp
    have c2: "\<forall>key. linked (run_db st) aid key \<longrightarrow> linked (run_db st') aid key"
    proof (intro allI impI)
      fix key
      assume "linked (run_db st) aid key"
      then obtain i where i: "first_skill (run_db st) key = Some i"
        and li: "search_link (run_db st) aid i \<noteq> None"
        unfolding linked_iff by blast
      from i have "first_skill (run_db st') key = Some i" by (rule fs_mono)
      moreover from li have "search_link (run_db st') aid i \<noteq> None" by (rule ln_mono)
      ultimately show "linked (run_db st') aid key"
        unfolding linked_iff by blast
    qed
    have c3: "links_unique (run_db st) \<longrightarrow> links_unique (run_db st')"
    proof
      assume "links_unique (run_db st)"
      then have "links_unique (run_db st4)"
        by (simp add: links_unique_def f4(4) ln3)
      then show "links_unique (run_db st')" by (rule f5(6))
    qed
    have c4: "applicants (run_db st') = applicants (run_db st)"
      using f5(2) f4(5) ap3 by simp
    have fk': "first_skill (run_db st') (lower s) = Some k"
      using fk by (simp add: first_skill_cong [OF f5(1)])
    have c5: "linked (run_db st') aid (lower s)"
      unfolding linked_iff using fk' f5(4) by blast
    have c6: "applicant_skills (run_db st') = applicant_skills (run_db st)"
      if "linked (run_db st) aid (lower s)"
    proof -
      from that obtain i where i: "first_skill (run_db st) (lower s) = Some i"
        and li: "search_link (run_db st) aid i \<noteq> None"
        unfolding linked_iff by blast
      from i have "first_skill (run_db st3) (lower s) = Some i"
        by (simp add: first_skill_cong [OF sk3])
      then have "first_skill (run_db st4) (lower s) = Some i" by (rule f4(3))
      with fk have "i = k" by simp
      with li have "search_link (run_db st4) aid k \<noteq> None"
        by (simp add: search_link_cong [OF f4(4)] search_link_cong [OF ln3])
      then have "applicant_skills (run_db st') = applicant_skills (run_db st4)" by (rule f5(7))
      with f4(4) ln3 show ?thesis by simp
    qed
    have c5': "\<forall>kv'. obj = JDict kv' \<and> truthy (dict_get kv' ''skill'') \<longrightarrow>
           (\<exists>s. dict_get kv' ''skill'' = JStr s \<and> linked (run_db st') aid (lower s))"
      using obj s c5 by auto
    have c6': "(\<forall>kv'. obj = JDict kv' \<and> truthy (dict_get kv' ''skill'') \<longrightarrow>
           (\<exists>s. dict_get kv' ''skill'' = JStr s \<and> linked (run_db st) aid (lower s))) \<longrightarrow>
         applicant_skills (run_db st') = applicant_skills (run_db st)"
    proof
      assume "\<forall>kv'. obj = JDict kv' \<and> truthy (dict_get kv' ''skill'') \<longrightarrow>
           (\<exists>s. dict_get kv' ''skill'' = JStr s \<and> linked (run_db st) aid (lower s))"
      with obj tr have "\<exists>s'. dict_get kv ''skill'' = JStr s' \<and> linked (run_db st) aid (lower s')"
        by blast
      with s have "linked (run_db st) aid (lower s)" by simp
      then show "applicant_skills (run_db st') = applicant_skills (run_db st)" by (rule c6)
    qed
    from c1 c2 c3 c4 c5' c6' show ?thesis by (intro conjI)
  qed
  then have g: ?goal .
  show "skill_cache_ok st'" using g by (rule conjunct1)
  show "linked (run_db st') aid k" if "linked (run_db st) aid k" for k
    using g that by simp
  show "links_unique (run_db st')" if "links_unique (run_db st)"
    using g that by simp
  show "applicants (run_db st') = applicants (run_db st)"
    using g by simp
  show "\<exists>s. dict_get kv ''skill'' = JStr s \<and> linked (run_db st') aid (lower s)"
    if "obj = JDict kv" "truthy (dict_get kv ''skill'')" for kv
  proof -
    from g have "\<forall>kv. obj = JDict kv \<and> truthy (dict_get kv ''skill'') \<longrightarrow>
           (\<exists>s. dict_get kv ''skill'' = JStr s \<and> linked (run_db st') aid (lower s))"
      by (elim conjE)
    with that show ?thesis by blast
  qed
  show "applicant_skills (run_db st') = applicant_skills (run_db st)"
    if "\<And>kv. obj = JDict kv \<Longrightarrow> truthy (dict_get kv ''skill'') \<Longrightarrow>
           \<exists>s. dict_get kv ''skill'' = JStr s \<and> linked (run_db st) aid (lower s)"
  proof -
    from g have "(\<forall>kv. obj = JDict kv \<and> truthy (dict_get kv ''skill'') \<longrightarrow>
           (\<exists>s. dict_get kv ''skill'' = JStr s \<and> linked (run_db st) aid (lower s))) \<longrightarrow>
         applicant_skills (run_db st') = applicant_skills (run_db st)"
      by (elim conjE)
    moreover have "\<forall>kv. obj = JDict kv \<and> truthy (dict_get kv ''skill'') \<longrightarrow>
           (\<exists>s. dict_get kv ''skill'' = JStr s \<and> linked (run_db st) aid (lower s))"
      using that by blast
    ultimately show ?thesis by (rule mp)
  qed
qed

subsection \<open>The loop\<close>

lemma named_skills_iff:
  "v \<in> set (named_skills items) \<longleftrightarrow>
     (\<exists>kv. JDict kv \<in> set items \<and> truthy (dict_get kv ''skill'') \<and> v = dict_get kv ''skill'')"
  by (induction items rule: named_skills.induct) auto

lemma process_loop_links:
  assumes "process_loop env aid st items = Inr st'" and "skill_cache_ok st"
  shows "skill_cache_ok st'
      \<and> (\<forall>k. linked (run_db st) aid k \<longrightarrow> linked (run_db st') aid k)
      \<and> (links_unique (run_db st) \<longrightarrow> links_unique (run_db st'))
      \<and> applicants (run_db st') = applicants (run_db st)
      \<and> (\<forall>v\<in>set (named_skills items). \<exists>s. v = JStr s \<and> linked (run_db st') aid (lower s))"
  using assms
proof (induction items arbitrary: st)
  case Nil
  then show ?case by simp
next
  case (Cons obj rest)
  from Cons.prems(1) obtain st1 where
    p1: "process_skill env aid st obj = Inr st1" and
    p2: "process_loop env aid st1 rest = Inr st'"
    by (cases "process_skill env aid st obj") simp_all
  note s = process_skill_step [OF p1 Cons.prems(2)]
  note ih = Cons.IH [OF p2 s(1)]
  have a: "skill_cache_ok st'" using ih by simp
  have b: "\<forall>k. linked (run_db st) aid k \<longrightarrow> linked (run_db st') aid k"
    using s(2) ih by blast
  have c: "links_unique (run_db st) \<longrightarrow> links_unique (run_db st')"
    using s(3) ih by blast
  have d: "applicants (run_db st') = applicants (run_db st)"
    using s(4) ih by simp
  have e: "\<forall>v\<in>set (named_skills (obj # rest)). \<exists>s. v = JStr s \<and> linked (run_db st') aid (lower s)"
  proof
    fix v
    assume "v \<in> set (named_skills (obj # rest))"
    then consider (here) kv where "obj = JDict kv" "truthy (dict_get kv ''skill'')" "v = dict_get kv ''skill''"
      | (later) "v \<in> set (named_skills rest)"
      by (cases obj) (auto split: if_splits)
    then show "\<exists>s. v = JStr s \<and> linked (run_db st') aid (lower s)"
    proof cases
      case here
      from s(5) [OF here(1,2)] obtain s' where "dict_get kv ''skill'' = JStr s'"
        "linked (run_db st1) aid (lower s')" by blast
      with here(3) ih show ?thesis by blast
    next
      case later
      with ih show ?thesis by blast
    qed
  qed
  from a b c d e show ?case by blast
qed


lemma skill_cache_ok_start: "skill_cache_ok (start_run d)"
  by (simp add: skill_cache_ok_def start_run_def)

lemma process_skills_cases:
  assumes "process_skills env d aid l = Inr d'"
  obtains (idle) "d' = d" "\<forall>items. l = JList items \<longrightarrow> items = []"
  | (run) items st where "l = JList items" "items \<noteq> []"
      "process_loop env aid (start_run d) items = Inr st" "d' = run_db st"
proof (cases l)
  case (JList items)
  show ?thesis
  proof (cases "items = []")
    case True
    with assms JList have "d' = d" by (simp add: process_skills_def)
    with True JList idle show ?thesis by simp
  next
    case False
    with assms JList obtain st where "process_loop env aid (start_run d) items = Inr st" "d' = run_db st"
      by (auto simp: process_skills_def split: sum.splits)
    with False JList run show ?thesis by blast
  qed
qed (use assms idle in \<open>simp_all add: process_skills_def\<close>)

lemma process_skills_applicants:
  assumes "process_skills env d aid l = Inr d'"
  shows "applicants d' = applicants d"
  using assms
proof (cases rule: process_skills_cases)
  case idle
  then show ?thesis by simp
next
  case (run items st)
  from process_loop_links [OF run(3) skill_cache_ok_start] run(4)
  show ?thesis by (simp add: start_run_def)
qed






section \<open>The states of an applicant\<close>

subsection \<open>Which applicants a job touches\<close>

lemma orm_write_applicant_others:
  assumes "orm_write_applicant env d aid vals = Inr d'" and "x \<noteq> aid"
  shows "applicants d' x = applicants d x"
  using orm_write_applicant_InrD [OF assms(1)] assms(2) by auto

lemma write_extracted_data_others:
  assumes "write_extracted_data env d aid data = Inr d'" and "x \<noteq> aid"
  shows "applicants d' x = applicants d x"
proof (cases "truthy data")
  case False
  with assms show ?thesis by (simp add: write_extracted_data_def)
next
  case True
  with assms(1) obtain kv where kv: "data = JDict kv"
    by (cases data) (simp_all add: write_extracted_data_def)
  with assms(1) True obtain v1 where v1: "name_entries env d aid (dict_get kv ''name'') = Inr v1"
    by (auto simp: write_extracted_data_def split: sum.splits)
  obtain d1 vals where de: "degree_entry env d (dict_get kv ''degree'') (contact_entries env kv v1) = (d1, vals)"
    by (cases "degree_entry env d (dict_get kv ''degree'') (contact_entries env kv v1)")
  have ap: "applicants d1 = applicants d"
    using degree_entry_applicants [of env d "dict_get kv ''degree''" "contact_entries env kv v1"] de
    by simp
  from assms(1) True kv v1 de
  have w: "(if vals \<noteq> no_vals then orm_write_applicant env d1 aid vals else Inr d1) = Inr d'"
    by (simp add: write_extracted_data_def)
  show ?thesis
  proof (cases "vals = no_vals")
    case True
    with w ap show ?thesis by auto
  next
    case False
    with w have "orm_write_applicant env d1 aid vals = Inr d'" by simp
    from orm_write_applicant_others [OF this assms(2)] ap show ?thesis by simp
  qed
qed

lemma call_and_write_others:
  assumes "call_and_write env d aid k m att = Inr (d1, sk)" and "x \<noteq> aid"
  shows "applicants d1 x = applicants d x"
proof -
  from assms(1) obtain da where da: "orm_write_applicant env d aid processing_vals = Inr da"
    by (auto simp: call_and_write_def split: sum.splits)
  with assms(1) obtain r where r: "call_gemini env k m (mimetype att) (text_of (datas att)) = Inr r"
    by (auto simp: call_and_write_def split: sum.splits)
  with assms(1) da obtain db where db: "orm_write_applicant env da aid parsing_vals = Inr db"
    by (auto simp: call_and_write_def split: sum.splits)
  with assms(1) da r obtain data where p: "parse_gemini_response env r = Inr data"
    by (auto simp: call_and_write_def split: sum.splits)
  with assms(1) da r db obtain dc where dc: "write_extracted_data env db aid data = Inr dc"
    by (auto simp: call_and_write_def split: sum.splits)
  with assms(1) da r db p have "d1 = dc"
    by (auto simp: call_and_write_def split: json.splits)
  with orm_write_applicant_others [OF da assms(2)] orm_write_applicant_others [OF db assms(2)]
    write_extracted_data_others [OF dc assms(2)]
  show ?thesis by simp
qed

lemma core_step_others:
  assumes "core_step env d aid = Inr (d1, sk)" and "x \<noteq> aid"
  shows "applicants d1 x = applicants d x"
proof -
  from assms(1) obtain k m att where "call_and_write env d aid k m att = Inr (d1, sk)"
    by (auto simp: core_step_def Let_def split: option.splits if_splits)
  then show ?thesis using assms(2) by (rule call_and_write_others)
qed

lemma skills_step_applicants:
  assumes "skills_step env d aid sk = Inr d'"
  shows "applicants d' = applicants d"
proof -
  from assms have "process_skills env d aid sk = Inr d'"
    by (auto simp: skills_step_def split: sum.splits)
  then show ?thesis by (rule process_skills_applicants)
qed

lemma settled_refl: "settled d d x"
  by (simp add: settled_def)

lemma settled_trans: "settled d d1 x \<Longrightarrow> settled d1 d2 x \<Longrightarrow> settled d d2 x"
  by (auto simp: settled_def)

lemma write_all_error_settled:
  assumes "write_all (error_vals m) d ids = Some d'"
  shows "settled d d' x"
  using assms
proof (induction ids arbitrary: d)
  case Nil
  then show ?case by (simp add: settled_refl)
next
  case (Cons aid ids)
  from Cons.prems obtain a where a: "applicants d aid = Some a"
    and w: "write_all (error_vals m) (d\<lparr>applicants := (applicants d)(aid \<mapsto> apply_vals (error_vals m) a)\<rparr>) ids = Some d'"
    by (auto split: option.splits)
  have "settled d (d\<lparr>applicants := (applicants d)(aid \<mapsto> apply_vals (error_vals m) a)\<rparr>) x"
    by (simp add: settled_def apply_error_vals)
  with Cons.IH [OF w] show ?case by (rule settled_trans [rotated])
qed

lemma handle_failure_settled:
  "working (handle_failure env cur aid e) = committed (handle_failure env cur aid e)
   \<and> settled (committed cur) (committed (handle_failure env cur aid e)) x"
proof (cases "error_cursor_write env (rollback cur) [aid] (error_vals (''Error: '' @ exn_str e))")
  case None
  then show ?thesis by (simp add: handle_failure_def rollback_def settled_refl)
next
  case (Some cur')
  then obtain d' where w: "write_all (error_vals (''Error: '' @ exn_str e)) (committed cur) [aid] = Some d'"
    and c: "cur' = \<lparr>committed = d', working = d'\<rparr>"
    by (auto simp: error_cursor_write_def rollback_def split: option.splits)
  from write_all_error_settled [OF w] Some c show ?thesis
    by (simp add: handle_failure_def)
qed

lemma extract_one_settled:
  assumes "working cur = committed cur"
  shows "working (extract_one env cur aid) = committed (extract_one env cur aid)
     \<and> settled (committed cur) (committed (extract_one env cur aid)) x"
proof (cases "core_step env (working cur) aid")
  case (Inl e)
  then have "extract_one env cur aid = handle_failure env cur aid e"
    by (simp add: extract_one_def)
  with handle_failure_settled show ?thesis by simp
next
  case (Inr p)
  then obtain d1 sk where c: "core_step env (working cur) aid = Inr (d1, sk)" by (cases p) simp
  define d2 where "d2 = (if truthy sk then (case skills_step env d1 aid sk of Inl e \<Rightarrow> d1 | Inr d \<Rightarrow> d) else d1)"
  define msg where "msg = (if truthy sk then (case skills_step env d1 aid sk of
        Inl e \<Rightarrow> partial_message e | Inr d \<Rightarrow> success_message) else success_message)"
  have ap2: "applicants d2 = applicants d1"
    by (auto simp: d2_def dest: skills_step_applicants split: sum.splits)
  have unf: "extract_one env cur aid =
      (case orm_write_applicant env d2 aid (done_vals msg) of
         Inl e \<Rightarrow> handle_failure env cur aid e
       | Inr d3 \<Rightarrow> (case commit env (cur\<lparr>working := d3\<rparr>) of
                      Inl e \<Rightarrow> handle_failure env cur aid e
                    | Inr cur' \<Rightarrow> cur'))"
    using c by (auto simp: extract_one_def d2_def msg_def split: sum.splits)
  show ?thesis
  proof (cases "orm_write_applicant env d2 aid (done_vals msg)")
    case (Inl e)
    with unf handle_failure_settled show ?thesis by simp
  next
    case w: (Inr d3)
    show ?thesis
    proof (cases "commit env (cur\<lparr>working := d3\<rparr>)")
      case (Inl e)
      with unf w handle_failure_settled show ?thesis by simp
    next
      case (Inr cur')
      then have cur': "cur' = \<lparr>committed = d3, working = d3\<rparr>"
        by (auto simp: commit_def split: option.splits)
      from orm_write_applicant_InrD [OF w] obtain a2 where
        a2: "applicants d2 aid = Some a2"
        and d3: "d3 = d2\<lparr>applicants := (applicants d2)(aid \<mapsto> apply_vals (done_vals msg) a2)\<rparr>"
        by blast
      have "settled (committed cur) d3 x"
      proof (cases "x = aid")
        case True
        with d3 show ?thesis by (simp add: settled_def apply_done_vals)
      next
        case False
        with d3 have "applicants d3 x = applicants d2 x" by simp
        also have "\<dots> = applicants d1 x" by (simp add: ap2)
        also have "\<dots> = applicants (working cur) x" using c False by (rule core_step_others)
        finally show ?thesis using assms by (simp add: settled_def)
      qed
      with unf w Inr cur' show ?thesis by simp
    qed
  qed
qed

lemma run_gemini_extraction_settled:
  assumes "working cur = committed cur"
  shows "working (run_gemini_extraction env cur aids) = committed (run_gemini_extraction env cur aids)
     \<and> settled (committed cur) (committed (run_gemini_extraction env cur aids)) x"
  using assms
proof (induction aids arbitrary: cur)
  case Nil
  then show ?case by (simp add: settled_refl)
next
  case (Cons aid aids)
  from extract_one_settled [OF Cons.prems, of env aid x]
  have cl: "working (extract_one env cur aid) = committed (extract_one env cur aid)"
    and s1: "settled (committed cur) (committed (extract_one env cur aid)) x"
    by simp_all
  from Cons.IH [OF cl] s1 show ?case
    by (auto intro: settled_trans)
qed

lemma thread_settled:
  "settled d (run_gemini_extraction_in_thread env d aids) x"
proof (cases "fault env OpenCursor")
  case None
  have "working \<lparr>committed = d, working = d\<rparr> = committed \<lparr>committed = d, working = d\<rparr>" by simp
  from run_gemini_extraction_settled [OF this, of env aids x] None
  show ?thesis by (simp add: run_gemini_extraction_in_thread_def)
next
  case (Some m)
  show ?thesis
  proof (cases "error_cursor_write env \<lparr>committed = d, working = d\<rparr> aids (error_vals (''Thread Error: '' @ m))")
    case None
    with Some show ?thesis by (simp add: run_gemini_extraction_in_thread_def settled_refl)
  next
    case c: (Some cur')
    then obtain d' where w: "write_all (error_vals (''Thread Error: '' @ m)) d aids = Some d'"
      and c': "cur' = \<lparr>committed = d', working = d'\<rparr>"
      by (auto simp: error_cursor_write_def split: option.splits)
    from write_all_error_settled [OF w] Some c c' show ?thesis
      by (simp add: run_gemini_extraction_in_thread_def)
  qed
qed

subsection \<open>The submission\<close>

lemma orm_write_applicants_pending:
  assumes "orm_write_applicants env d ids pending_vals = Inr d'"
  shows "(\<forall>x. x \<notin> set ids \<longrightarrow> applicants d' x = applicants d x)
     \<and> (\<forall>x\<in>set ids. \<exists>a'. applicants d' x = Some a' \<and> gemini_extract_state a' = Pending)"
  using assms
proof (induction ids arbitrary: d)
  case Nil
  then show ?case by simp
next
  case (Cons aid ids)
  from Cons.prems obtain d1 where w1: "orm_write_applicant env d aid pending_vals = Inr d1"
    and w2: "orm_write_applicants env d1 ids pending_vals = Inr d'"
    by (auto split: sum.splits)
  from orm_write_applicant_InrD [OF w1] obtain a where
    d1: "d1 = d\<lparr>applicants := (applicants d)(aid \<mapsto> apply_vals pending_vals a)\<rparr>" by blast
  have st: "gemini_extract_state (apply_vals pending_vals a) = Pending"
    by (simp add: apply_vals_def pending_vals_def no_vals_def)
  note ih = Cons.IH [OF w2]
  have "\<forall>x. x \<notin> set (aid # ids) \<longrightarrow> applicants d' x = applicants d x"
    using ih d1 by simp
  moreover have "\<forall>x\<in>set (aid # ids). \<exists>a'. applicants d' x = Some a' \<and> gemini_extract_state a' = Pending"
  proof
    fix x assume x: "x \<in> set (aid # ids)"
    show "\<exists>a'. applicants d' x = Some a' \<and> gemini_extract_state a' = Pending"
    proof (cases "x \<in> set ids")
      case True
      with ih show ?thesis by blast
    next
      case False
      with x have "x = aid" by simp
      with False ih d1 st show ?thesis by simp
    qed
  qed
  ultimately show ?case by blast
qed

lemma can_extract_with_gemini_iff:
  "can_extract_with_gemini env d x \<longleftrightarrow>
     (\<exists>a. applicants d x = Some a
        \<and> gemini_cv_extract_mode (case company_id a of Some c \<Rightarrow> c | None \<Rightarrow> env_company env)
            = ''manual_send''
        \<and> message_main_attachment_id a \<noteq> None
        \<and> gemini_extract_state a \<in> {NoExtract, Error, Done})"
  by (simp add: can_extract_with_gemini_def Let_def split: option.splits)


text \<open>
  Claim C3, as the code has it. The action puts into Pending exactly the submitted
  records that are eligible, and a record is eligible when the extraction mode of its
  company is \<open>manual_send\<close>, it has a main attachment, and its state is NoExtract, Error
  or Done; whether an API key is configured is not examined at submission. Every other
  record is as it was. When no submitted record is eligible the action fails at once with
  a \<open>UserError\<close>: nothing is written and nothing is handed to the thread. The job, which
  alone writes Processing, leaves every record either as it was committed before or
  committed in state Done or Error.
\<close>

theorem extraction_state_machine:
  "(\<forall>cur' ids. action_extract_with_gemini env cur aids = Inr (cur', ids) \<longrightarrow>
       ids = filter (can_extract_with_gemini env (working cur)) aids
       \<and> (\<forall>x\<in>set ids. \<exists>a a'. applicants (working cur) x = Some a
             \<and> gemini_cv_extract_mode (case company_id a of Some c \<Rightarrow> c | None \<Rightarrow> env_company env)
                 = ''manual_send''
             \<and> message_main_attachment_id a \<noteq> None
             \<and> gemini_extract_state a \<in> {NoExtract, Error, Done}
             \<and> applicants (committed cur') x = Some a' \<and> gemini_extract_state a' = Pending)
       \<and> (\<forall>x. x \<notin> set ids \<longrightarrow> applicants (committed cur') x = applicants (working cur) x))
   \<and> ((\<forall>x\<in>set aids. \<not> can_extract_with_gemini env (working cur) x) \<longrightarrow>
       action_extract_with_gemini env cur aids =
         Inl (UserError ''There are no applicants here that are ready for extraction.''))
   \<and> (\<forall>x a'. applicants (run_gemini_extraction_in_thread env d aids) x = Some a' \<longrightarrow>
         applicants d x = Some a'
         \<or> gemini_extract_state a' = Done \<or> gemini_extract_state a' = Error)"
proof (intro conjI allI impI)
  fix cur' ids
  assume h: "action_extract_with_gemini env cur aids = Inr (cur', ids)"
  let ?el = "filter (can_extract_with_gemini env (working cur)) aids"
  from h have ne: "?el \<noteq> []"
    by (auto simp: action_extract_with_gemini_def Let_def split: if_splits)
  with h obtain d' where w: "orm_write_applicants env (working cur) ?el pending_vals = Inr d'"
    by (auto simp: action_extract_with_gemini_def Let_def split: sum.splits)
  with h ne have ids: "ids = ?el" and cur': "committed cur' = d'"
    by (auto simp: action_extract_with_gemini_def Let_def commit_def split: sum.splits option.splits)
  note p = orm_write_applicants_pending [OF w]
  show "ids = ?el" by (rule ids)
  show "\<forall>x\<in>set ids. \<exists>a a'. applicants (working cur) x = Some a
             \<and> gemini_cv_extract_mode (case company_id a of Some c \<Rightarrow> c | None \<Rightarrow> env_company env)
                 = ''manual_send''
             \<and> message_main_attachment_id a \<noteq> None
             \<and> gemini_extract_state a \<in> {NoExtract, Error, Done}
             \<and> applicants (committed cur') x = Some a' \<and> gemini_extract_state a' = Pending"
  proof
    fix x assume x: "x \<in> set ids"
    with ids have "can_extract_with_gemini env (working cur) x" by simp
    then obtain a where a: "applicants (working cur) x = Some a"
      "gemini_cv_extract_mode (case company_id a of Some c \<Rightarrow> c | None \<Rightarrow> env_company env)
         = ''manual_send''"
      "message_main_attachment_id a \<noteq> None"
      "gemini_extract_state a \<in> {NoExtract, Error, Done}"
      unfolding can_extract_with_gemini_iff by blast
    from p x ids cur' obtain a' where "applicants (committed cur') x = Some a'"
      "gemini_extract_state a' = Pending" by blast
    with a show "\<exists>a a'. applicants (working cur) x = Some a
             \<and> gemini_cv_extract_mode (case company_id a of Some c \<Rightarrow> c | None \<Rightarrow> env_company env)
                 = ''manual_send''
             \<and> message_main_attachment_id a \<noteq> None
             \<and> gemini_extract_state a \<in> {NoExtract, Error, Done}
             \<and> applicants (committed cur') x = Some a' \<and> gemini_extract_state a' = Pending"
      by blast
  qed
  show "applicants (committed cur') x = applicants (working cur) x" if "x \<notin> set ids" for x
    using p that ids cur' by simp
next
  assume "\<forall>x\<in>set aids. \<not> can_extract_with_gemini env (working cur) x"
  then have "filter (can_extract_with_gemini env (working cur)) aids = []"
    by (simp add: filter_empty_conv)
  then show "action_extract_with_gemini env cur aids =
         Inl (UserError ''There are no applicants here that are ready for extraction.'')"
    by (simp add: action_extract_with_gemini_def)
next
  fix x a'
  assume "applicants (run_gemini_extraction_in_thread env d aids) x = Some a'"
  with thread_settled [of d env aids x]
  show "applicants d x = Some a' \<or> gemini_extract_state a' = Done \<or> gemini_extract_state a' = Error"
    by (auto simp: settled_def)
qed


theorem extraction_state_machine_witness:
  "(\<exists>cur' a'. action_extract_with_gemini demo_env fresh_cursor [1] = Inr (cur', [1])
       \<and> applicants (committed cur') 1 = Some a' \<and> gemini_extract_state a' = Pending)
   \<and> action_extract_with_gemini demo_env demo_cursor [1] =
        Inl (UserError ''There are no applicants here that are ready for extraction.'')
   \<and> (\<exists>a'. applicants (run_gemini_extraction_in_thread demo_env demo_db [1]) 1 = Some a'
         \<and> (applicants demo_db 1 = Some a'
             \<or> gemini_extract_state a' = Done \<or> gemini_extract_state a' = Error))"
proof -
  have el: "can_extract_with_gemini demo_env (working fresh_cursor) 1"
    by (simp add: can_extract_with_gemini_def fresh_cursor_def fresh_db_def fresh_applicant_def
        demo_defs)
  obtain cur' ids where a: "action_extract_with_gemini demo_env fresh_cursor [1] = Inr (cur', ids)"
    using el
    by (simp add: action_extract_with_gemini_def commit_def pending_vals_def store_defs
        fresh_cursor_def fresh_db_def fresh_applicant_def demo_defs)
  note t1 = extraction_state_machine [of demo_env fresh_cursor "[1]", THEN conjunct1, rule_format, OF a]
  from t1 el have ids: "ids = [1]" by simp
  from t1 ids obtain a' where "applicants (committed cur') 1 = Some a'"
    "gemini_extract_state a' = Pending"
    by auto
  with a ids have c1: "\<exists>cur' a'. action_extract_with_gemini demo_env fresh_cursor [1] = Inr (cur', [1])
       \<and> applicants (committed cur') 1 = Some a' \<and> gemini_extract_state a' = Pending"
    by blast
  have nel: "\<forall>x\<in>set [1]. \<not> can_extract_with_gemini demo_env (working demo_cursor) x"
    by (simp add: can_extract_with_gemini_def demo_cursor_def demo_defs)
  note c2 = extraction_state_machine [of demo_env demo_cursor "[1]", THEN conjunct2, THEN conjunct1,
      THEN mp, OF nel]
  obtain b' where b: "applicants (run_gemini_extraction_in_thread demo_env demo_db [1]) 1 = Some b'"
    by (simp add: run_gemini_extraction_in_thread_def job_defs store_defs demo_defs)
  note t3 = extraction_state_machine [of demo_env fresh_cursor "[1]" demo_db,
      THEN conjunct2, THEN conjunct2, rule_format, OF b]
  with b have c3: "\<exists>a'. applicants (run_gemini_extraction_in_thread demo_env demo_db [1]) 1 = Some a'
         \<and> (applicants demo_db 1 = Some a'
             \<or> gemini_extract_state a' = Done \<or> gemini_extract_state a' = Error)"
    by blast
  from c1 c2 c3 show ?thesis by blast
qed

text \<open>
  The claim as it was stated makes configured provider credentials a part of the
  eligibility predicate. The record of a company that has no API key, in manual mode and
  with an attachment, enters Pending all the same.
\<close>

theorem pending_without_api_key:
  "gemini_api_key (env_company nokey_env) = None
   \<and> state_after (action_extract_with_gemini nokey_env fresh_cursor [1]) 1 = Some Pending"
  by (simp add: state_after_def action_extract_with_gemini_def can_extract_with_gemini_def
      commit_def pending_vals_def store_defs nokey_env_def fresh_cursor_def fresh_db_def
      fresh_applicant_def demo_defs)

end
